theory Spec2Isabelle
  imports Main
begin

section \<open>Values decoded from the wire\<close>

text \<open>
  The service in \<^verbatim>\<open>src/services/socket.js\<close> exchanges JSON texts that end with the
  character \<^verbatim>\<open>#\<close>. A decoded value is a JavaScript value built by \<^verbatim>\<open>JSON.parse\<close>: null, a
  boolean, a number, a string, an array or an object. A number literal is kept as the exact
  decimal \<open>m * 10 ^ e\<close> (IEEE rounding is left out), an object as its members in source
  order. The value \<^verbatim>\<open>undefined\<close> is \<open>None\<close> of \<open>json option\<close>.
\<close>

datatype json =
    JNull
  | JBool bool
  | JNum int int
  | JStr string
  | JArr "json list"
  | JObj "(string \<times> json) list"

text \<open>What \<^verbatim>\<open>if (json)\<close> tests: the falsy values are null, false, zero and the empty string.\<close>

fun truthy :: "json \<Rightarrow> bool" where
  "truthy JNull = False"
| "truthy (JBool b) = b"
| "truthy (JNum m e) = (m \<noteq> 0)"
| "truthy (JStr s) = (s \<noteq> [])"
| "truthy (JArr xs) = True"
| "truthy (JObj kvs) = True"

text \<open>
  The property read \<^verbatim>\<open>v.k\<close> for the names the service reads (\<^verbatim>\<open>op\<close>, \<^verbatim>\<open>data\<close>,
  \<^verbatim>\<open>markets\<close>, \<^verbatim>\<open>indexes\<close>): an object yields its last member of that name, every other
  non-null value yields \<^verbatim>\<open>undefined\<close>. Reading from null or undefined throws; the callers
  below test for that case before they read.
\<close>

fun get_prop :: "json \<Rightarrow> string \<Rightarrow> json option" where
  "get_prop (JObj kvs) k = map_of (rev kvs) k"
| "get_prop v k = None"

datatype exn = SyntaxError | TypeError | Thrown string

datatype completion = Normal | Throw exn

section \<open>JSON.parse\<close>

text \<open>
  \<^verbatim>\<open>JSON.parse\<close> is a built-in of the language, not a function of the repository. The codec
  below takes the parser as a parameter, so every general theorem holds for any parser.
  \<open>JSON_parse\<close> is a model of the built-in after the JSON grammar (ECMA-404), used where a
  theorem evaluates the service on a concrete text: a scanner that reads one character at a
  time and a pushdown recogniser over its tokens. It accepts the texts of the grammar and
  rejects the others, with these differences from the built-in, none of which occurs in a
  text that this theory evaluates: a number is kept as the exact decimal, so a literal
  that the built-in rounds (beyond 53 bits) or takes to zero (such as \<^verbatim>\<open>1e-400\<close>, which is
  falsy there) or to infinity keeps its exact value here; and text is a list of 8-bit
  characters, so a \<^verbatim>\<open>\u\<close> escape above code 255 is rejected here and decoded there.
\<close>

datatype token = TLBrace | TRBrace | TLBrack | TRBrack | TColon | TComma | TVal json

datatype numphase = PMinus | PZero | PInt | PDot | PFrac | PE | PESign | PEDig

text \<open>
  Scanner states. \<open>LNum ph neg m f eneg e\<close>: inside a number, with the digits read so far
  as \<open>m\<close>, \<open>f\<close> of them after the point, and the exponent \<open>e\<close> with its sign.
\<close>

datatype lexst =
    LStart
  | LStr string
  | LEsc string
  | LUni string nat nat
  | LNum numphase bool nat nat bool nat
  | LLit string json

definition is_ws :: "char \<Rightarrow> bool" where
  "is_ws c = (c = CHR '' '' \<or> c = CHR 0x09 \<or> c = CHR 0x0A \<or> c = CHR 0x0D)"

definition digit_of :: "char \<Rightarrow> nat option" where
  "digit_of c = (let n = of_char c :: nat in if 48 \<le> n \<and> n \<le> 57 then Some (n - 48) else None)"

definition hex_of :: "char \<Rightarrow> nat option" where
  "hex_of c = (let n = of_char c :: nat in
     if 48 \<le> n \<and> n \<le> 57 then Some (n - 48)
     else if 65 \<le> n \<and> n \<le> 70 then Some (n - 55)
     else if 97 \<le> n \<and> n \<le> 102 then Some (n - 87)
     else None)"

definition num_value :: "bool \<Rightarrow> nat \<Rightarrow> nat \<Rightarrow> bool \<Rightarrow> nat \<Rightarrow> json" where
  "num_value neg m f eneg e =
     JNum (if neg then - int m else int m) ((if eneg then - int e else int e) - int f)"

text \<open>The first character of a token.\<close>

definition lex_start :: "char \<Rightarrow> (token list \<times> lexst) option" where
  "lex_start c =
     (if is_ws c then Some ([], LStart)
      else if c = CHR ''{'' then Some ([TLBrace], LStart)
      else if c = CHR ''}'' then Some ([TRBrace], LStart)
      else if c = CHR ''['' then Some ([TLBrack], LStart)
      else if c = CHR '']'' then Some ([TRBrack], LStart)
      else if c = CHR '':'' then Some ([TColon], LStart)
      else if c = CHR '','' then Some ([TComma], LStart)
      else if c = CHR 0x22 then Some ([], LStr [])
      else if c = CHR ''-'' then Some ([], LNum PMinus True 0 0 False 0)
      else if c = CHR ''0'' then Some ([], LNum PZero False 0 0 False 0)
      else if c = CHR ''t'' then Some ([], LLit ''rue'' (JBool True))
      else if c = CHR ''f'' then Some ([], LLit ''alse'' (JBool False))
      else if c = CHR ''n'' then Some ([], LLit ''ull'' JNull)
      else (case digit_of c of
              Some d \<Rightarrow> Some ([], LNum PInt False d 0 False 0)
            | None \<Rightarrow> None))"

text \<open>A character that cannot continue a finished number ends it and starts the next token.\<close>

definition num_done :: "bool \<Rightarrow> nat \<Rightarrow> nat \<Rightarrow> bool \<Rightarrow> nat \<Rightarrow> char \<Rightarrow> (token list \<times> lexst) option" where
  "num_done neg m f eneg e c =
     (case lex_start c of
        None \<Rightarrow> None
      | Some (ts, st) \<Rightarrow> Some (TVal (num_value neg m f eneg e) # ts, st))"

definition is_e :: "char \<Rightarrow> bool" where
  "is_e c = (c = CHR ''e'' \<or> c = CHR ''E'')"

fun lex_num :: "numphase \<Rightarrow> bool \<Rightarrow> nat \<Rightarrow> nat \<Rightarrow> bool \<Rightarrow> nat \<Rightarrow> char \<Rightarrow> (token list \<times> lexst) option" where
  "lex_num PMinus neg m f eneg e c =
     (if c = CHR ''0'' then Some ([], LNum PZero neg 0 0 False 0)
      else (case digit_of c of
              Some d \<Rightarrow> Some ([], LNum PInt neg d 0 False 0)
            | None \<Rightarrow> None))"
| "lex_num PZero neg m f eneg e c =
     (if c = CHR ''.'' then Some ([], LNum PDot neg m f eneg e)
      else if is_e c then Some ([], LNum PE neg m f eneg e)
      else if digit_of c \<noteq> None then None
      else num_done neg m f eneg e c)"
| "lex_num PInt neg m f eneg e c =
     (case digit_of c of
        Some d \<Rightarrow> Some ([], LNum PInt neg (10 * m + d) f eneg e)
      | None \<Rightarrow>
          if c = CHR ''.'' then Some ([], LNum PDot neg m f eneg e)
          else if is_e c then Some ([], LNum PE neg m f eneg e)
          else num_done neg m f eneg e c)"
| "lex_num PDot neg m f eneg e c =
     (case digit_of c of
        Some d \<Rightarrow> Some ([], LNum PFrac neg (10 * m + d) (Suc f) eneg e)
      | None \<Rightarrow> None)"
| "lex_num PFrac neg m f eneg e c =
     (case digit_of c of
        Some d \<Rightarrow> Some ([], LNum PFrac neg (10 * m + d) (Suc f) eneg e)
      | None \<Rightarrow>
          if is_e c then Some ([], LNum PE neg m f eneg e)
          else num_done neg m f eneg e c)"
| "lex_num PE neg m f eneg e c =
     (if c = CHR ''+'' then Some ([], LNum PESign neg m f False 0)
      else if c = CHR ''-'' then Some ([], LNum PESign neg m f True 0)
      else (case digit_of c of
              Some d \<Rightarrow> Some ([], LNum PEDig neg m f False d)
            | None \<Rightarrow> None))"
| "lex_num PESign neg m f eneg e c =
     (case digit_of c of
        Some d \<Rightarrow> Some ([], LNum PEDig neg m f eneg d)
      | None \<Rightarrow> None)"
| "lex_num PEDig neg m f eneg e c =
     (case digit_of c of
        Some d \<Rightarrow> Some ([], LNum PEDig neg m f eneg (10 * e + d))
      | None \<Rightarrow> num_done neg m f eneg e c)"

definition escape_of :: "char \<Rightarrow> char option" where
  "escape_of c =
     (if c = CHR 0x22 then Some (CHR 0x22)
      else if c = CHR 0x5C then Some (CHR 0x5C)
      else if c = CHR ''/'' then Some (CHR ''/'')
      else if c = CHR ''b'' then Some (CHR 0x08)
      else if c = CHR ''f'' then Some (CHR 0x0C)
      else if c = CHR ''n'' then Some (CHR 0x0A)
      else if c = CHR ''r'' then Some (CHR 0x0D)
      else if c = CHR ''t'' then Some (CHR 0x09)
      else None)"

fun lex_step :: "lexst \<Rightarrow> char \<Rightarrow> (token list \<times> lexst) option" where
  "lex_step LStart c = lex_start c"
| "lex_step (LStr acc) c =
     (if c = CHR 0x22 then Some ([TVal (JStr acc)], LStart)
      else if c = CHR 0x5C then Some ([], LEsc acc)
      else if (of_char c :: nat) < 32 then None
      else Some ([], LStr (acc @ [c])))"
| "lex_step (LEsc acc) c =
     (if c = CHR ''u'' then Some ([], LUni acc 0 0)
      else (case escape_of c of
              Some x \<Rightarrow> Some ([], LStr (acc @ [x]))
            | None \<Rightarrow> None))"
| "lex_step (LUni acc k v) c =
     (case hex_of c of
        None \<Rightarrow> None
      | Some h \<Rightarrow>
          if k < 3 then Some ([], LUni acc (Suc k) (16 * v + h))
          else if 16 * v + h < 256 then Some ([], LStr (acc @ [char_of (16 * v + h)]))
          else None)"
| "lex_step (LNum ph neg m f eneg e) c = lex_num ph neg m f eneg e c"
| "lex_step (LLit rest v) c =
     (case rest of
        [] \<Rightarrow> None
      | x # xs \<Rightarrow>
          if c \<noteq> x then None
          else if xs = [] then Some ([TVal v], LStart)
          else Some ([], LLit xs v))"

text \<open>The end of the text: only between tokens or after a number that may stop here.\<close>

fun lex_end :: "lexst \<Rightarrow> token list option" where
  "lex_end LStart = Some []"
| "lex_end (LNum ph neg m f eneg e) =
     (if ph = PZero \<or> ph = PInt \<or> ph = PFrac \<or> ph = PEDig
      then Some [TVal (num_value neg m f eneg e)] else None)"
| "lex_end st = None"

fun lex :: "lexst \<Rightarrow> string \<Rightarrow> token list option" where
  "lex st [] = lex_end st"
| "lex st (c # cs) =
     (case lex_step st c of
        None \<Rightarrow> None
      | Some (ts, st') \<Rightarrow> (case lex st' cs of None \<Rightarrow> None | Some us \<Rightarrow> Some (ts @ us)))"

text \<open>
  The recogniser keeps the open arrays and objects on a stack. \<open>FKey kvs k\<close> is an object
  whose member \<open>k\<close> waits for its value.
\<close>

datatype frame = FArr "json list" | FObj "(string \<times> json) list" | FKey "(string \<times> json) list" string

datatype expect = XValue | XValueOrEnd | XKeyOrEnd | XKey | XColon | XAfter | XDone json

text \<open>A value is complete: it is the whole text, an array element or an object member.\<close>

fun complete :: "json \<Rightarrow> frame list \<Rightarrow> (frame list \<times> expect) option" where
  "complete v [] = Some ([], XDone v)"
| "complete v (FArr xs # fs) = Some (FArr (xs @ [v]) # fs, XAfter)"
| "complete v (FKey kvs k # fs) = Some (FObj (kvs @ [(k, v)]) # fs, XAfter)"
| "complete v (FObj kvs # fs) = None"

fun close_arr :: "frame list \<Rightarrow> (frame list \<times> expect) option" where
  "close_arr (FArr xs # fs) = complete (JArr xs) fs"
| "close_arr fs = None"

fun close_obj :: "frame list \<Rightarrow> (frame list \<times> expect) option" where
  "close_obj (FObj kvs # fs) = complete (JObj kvs) fs"
| "close_obj fs = None"

fun open_key :: "string \<Rightarrow> frame list \<Rightarrow> (frame list \<times> expect) option" where
  "open_key k (FObj kvs # fs) = Some (FKey kvs k # fs, XColon)"
| "open_key k fs = None"

fun start_value :: "token \<Rightarrow> frame list \<Rightarrow> (frame list \<times> expect) option" where
  "start_value (TVal v) fs = complete v fs"
| "start_value TLBrack fs = Some (FArr [] # fs, XValueOrEnd)"
| "start_value TLBrace fs = Some (FObj [] # fs, XKeyOrEnd)"
| "start_value t fs = None"

fun after_value :: "token \<Rightarrow> frame list \<Rightarrow> (frame list \<times> expect) option" where
  "after_value TComma (FArr xs # fs) = Some (FArr xs # fs, XValue)"
| "after_value TComma (FObj kvs # fs) = Some (FObj kvs # fs, XKey)"
| "after_value TRBrack fs = close_arr fs"
| "after_value TRBrace fs = close_obj fs"
| "after_value t fs = None"

fun parse_step :: "expect \<Rightarrow> token \<Rightarrow> frame list \<Rightarrow> (frame list \<times> expect) option" where
  "parse_step XValue t fs = start_value t fs"
| "parse_step XValueOrEnd t fs = (if t = TRBrack then close_arr fs else start_value t fs)"
| "parse_step XKeyOrEnd t fs =
     (case t of TRBrace \<Rightarrow> close_obj fs | TVal (JStr k) \<Rightarrow> open_key k fs | _ \<Rightarrow> None)"
| "parse_step XKey t fs = (case t of TVal (JStr k) \<Rightarrow> open_key k fs | _ \<Rightarrow> None)"
| "parse_step XColon t fs = (if t = TColon then Some (fs, XValue) else None)"
| "parse_step XAfter t fs = after_value t fs"
| "parse_step (XDone v) t fs = None"

fun parse_tokens :: "frame list \<Rightarrow> expect \<Rightarrow> token list \<Rightarrow> json option" where
  "parse_tokens fs x [] = (case x of XDone v \<Rightarrow> (if fs = [] then Some v else None) | _ \<Rightarrow> None)"
| "parse_tokens fs x (t # ts) =
     (case parse_step x t fs of
        None \<Rightarrow> None
      | Some (fs', x') \<Rightarrow> parse_tokens fs' x' ts)"

definition JSON_parse :: "string \<Rightarrow> exn + json" where
  "JSON_parse s =
     (case lex LStart s of
        None \<Rightarrow> Inl SyntaxError
      | Some ts \<Rightarrow> (case parse_tokens [] XValue ts of None \<Rightarrow> Inl SyntaxError | Some v \<Rightarrow> Inr v))"

section \<open>The service and the world it acts on\<close>

text \<open>
  \<^verbatim>\<open>SocketService\<close> is one object (the module exports a single instance). Its fields are
  the first five of the record. Sockets and timers are objects of the runtime, named here by
  numbers: \<open>sockets\<close> is the store of the socket objects, \<open>timers\<close> the timers that the
  event loop still holds, \<open>nextId\<close> the next unused name. \<open>emitted\<close> lists the calls of
  \<^verbatim>\<open>this.emit\<close>, \<open>console\<close> the lines written to the console.
\<close>

record sock =
  markets :: "json option"
  indexes :: "json option"
  destroyed :: bool
  ended :: bool
  written :: "json list"

datatype log =
    Msg string
  | ParseFailed string
  | CallbackFailed exn json
  | Registered "json list"

record service =
  clusterSocket :: "nat option"
  serverSocket :: "nat option"
  clusteredCollectors :: "nat list"
  pendingSocketData :: string
  clusterConnectionTimeout :: "nat option"
  sockets :: "nat \<Rightarrow> sock"
  timers :: "nat list"
  nextId :: nat
  emitted :: "(json option \<times> json option) list"
  console :: "log list"

definition new_sock :: sock where
  "new_sock = \<lparr>markets = None, indexes = None, destroyed = False, ended = False, written = []\<rparr>"

text \<open>
  The state the constructor leaves before it chooses a role. The buffer is assigned for
  the first time when a connection is set up, before any data handler can run; until then
  the model holds the empty text.
\<close>

definition init :: service where
  "init = \<lparr>clusterSocket = None, serverSocket = None, clusteredCollectors = [],
     pendingSocketData = [], clusterConnectionTimeout = None,
     sockets = (\<lambda>_. new_sock), timers = [], nextId = 0, emitted = [], console = []\<rparr>"

definition console_write :: "log \<Rightarrow> service \<Rightarrow> service" where
  "console_write l st = st\<lparr>console := console st @ [l]\<rparr>"

text \<open>
  \<^verbatim>\<open>this.emit(op, data)\<close> of the event emitter: the call is recorded, then the subscribers
  run. They are code outside the repository; \<open>subs\<close> says whether they return or throw.
\<close>

type_synonym subscribers = "json option \<Rightarrow> json option \<Rightarrow> completion"

definition emit :: "subscribers \<Rightarrow> json option \<Rightarrow> json option \<Rightarrow> service \<Rightarrow> completion \<times> service" where
  "emit subs ev payload st = (subs ev payload, st\<lparr>emitted := emitted st @ [(ev, payload)]\<rparr>)"

text \<open>Subscribers that all return.\<close>

definition quiet :: subscribers where
  "quiet ev payload = Normal"

section \<open>The frame codec: parseSocketData\<close>

text \<open>
  The model starts after \<^verbatim>\<open>const stringData = data.toString()\<close>: a chunk is the text
  that the conversion yields, one 8-bit character for one character of the text. The
  conversion of a chunk whose bytes end inside a multi-byte character is not modelled;
  the texts of this theory are ASCII.
\<close>

text \<open>\<^verbatim>\<open>s.split('#')\<close>: the pieces between the delimiters, the empty ones included.\<close>

fun split :: "char \<Rightarrow> string \<Rightarrow> string list" where
  "split d [] = [[]]"
| "split d (c # cs) =
     (if c = d then [] # split d cs
      else (case split d cs of [] \<Rightarrow> [[c]] | p # ps \<Rightarrow> (c # p) # ps))"

type_synonym parser = "string \<Rightarrow> exn + json"

type_synonym callback = "json \<Rightarrow> service \<Rightarrow> completion \<times> service"

text \<open>
  \<^verbatim>\<open>let json; try { json = JSON.parse(this.pendingSocketData) } catch (error) { console.error(..) }\<close>
\<close>

definition try_parse :: "parser \<Rightarrow> service \<Rightarrow> json option \<times> service" where
  "try_parse parse st =
     (case parse (pendingSocketData st) of
        Inr v \<Rightarrow> (Some v, st)
      | Inl err \<Rightarrow> (None, console_write (ParseFailed (pendingSocketData st)) st))"

text \<open>
  \<^verbatim>\<open>if (json) { try { callback(json) } catch (error) { console.error(..) } }\<close>: the callback
  runs on a truthy value only; what it throws is caught here, after the changes it made.
\<close>

definition try_callback :: "callback \<Rightarrow> json option \<Rightarrow> service \<Rightarrow> completion \<times> service" where
  "try_callback cb json st =
     (case json of
        None \<Rightarrow> (Normal, st)
      | Some v \<Rightarrow>
          if truthy v then
            (case cb v st of
               (Normal, st') \<Rightarrow> (Normal, st')
             | (Throw err, st') \<Rightarrow> (Normal, console_write (CallbackFailed err v) st'))
          else (Normal, st))"

text \<open>
  The body of the \<^verbatim>\<open>for\<close> loop for the piece \<open>chunk\<close> at index \<open>i\<close> of \<open>n\<close> pieces. Both
  \<^verbatim>\<open>continue\<close> statements leave the body with the buffer as it is at that point.
\<close>

definition segment :: "parser \<Rightarrow> callback \<Rightarrow> bool \<Rightarrow> nat \<Rightarrow> nat \<Rightarrow> string \<Rightarrow> service \<Rightarrow> completion \<times> service" where
  "segment parse cb incompleteData n i chunk st =
     (if chunk = [] then (Normal, st)
      else
        let st1 = st\<lparr>pendingSocketData := pendingSocketData st @ chunk\<rparr> in
        if i = n - 1 \<and> incompleteData then (Normal, st1)
        else
          let (json, st2) = try_parse parse st1 in
          (case try_callback cb json st2 of
             (Throw err, st3) \<Rightarrow> (Throw err, st3)
           | (Normal, st3) \<Rightarrow> (Normal, st3\<lparr>pendingSocketData := []\<rparr>)))"

text \<open>The loop from index \<open>i\<close> over the pieces that are left; a throw would end it.\<close>

fun segments :: "parser \<Rightarrow> callback \<Rightarrow> bool \<Rightarrow> nat \<Rightarrow> nat \<Rightarrow> string list \<Rightarrow> service \<Rightarrow> completion \<times> service" where
  "segments parse cb incompleteData n i [] st = (Normal, st)"
| "segments parse cb incompleteData n i (chunk # chunks) st =
     (case segment parse cb incompleteData n i chunk st of
        (Throw err, st') \<Rightarrow> (Throw err, st')
      | (Normal, st') \<Rightarrow> segments parse cb incompleteData n (Suc i) chunks st')"

definition parseSocketData :: "parser \<Rightarrow> callback \<Rightarrow> service \<Rightarrow> string \<Rightarrow> completion \<times> service" where
  "parseSocketData parse cb st stringData =
     (let incompleteData = (stringData = [] \<or> last stringData \<noteq> CHR ''#'') in
      if CHR ''#'' \<in> set stringData then
        let chunks = split (CHR ''#'') stringData in
        segments parse cb incompleteData (length chunks) 0 chunks st
      else (Normal, st\<lparr>pendingSocketData := pendingSocketData st @ stringData\<rparr>))"

text \<open>
  The same loop without its index: a piece is the last one when no piece follows it, so
  the test \<^verbatim>\<open>i === chunks.length - 1\<close> becomes a test on the rest of the list.
\<close>

fun pieces :: "parser \<Rightarrow> callback \<Rightarrow> bool \<Rightarrow> string list \<Rightarrow> service \<Rightarrow> service" where
  "pieces parse cb incompleteData [] st = st"
| "pieces parse cb incompleteData (chunk # chunks) st =
     pieces parse cb incompleteData chunks
       (snd (segment parse cb (incompleteData \<and> chunks = []) 1 0 chunk st))"

text \<open>
  A sequence of data events on one handler. An exception that left the handler would be
  an uncaught exception of the process: the run stops there.
\<close>

fun feed :: "parser \<Rightarrow> callback \<Rightarrow> service \<Rightarrow> string list \<Rightarrow> completion \<times> service" where
  "feed parse cb st [] = (Normal, st)"
| "feed parse cb st (d # ds) =
     (case parseSocketData parse cb st d of
        (Throw err, st') \<Rightarrow> (Throw err, st')
      | (Normal, st') \<Rightarrow> feed parse cb st' ds)"

section \<open>The hub: createCluster\<close>

text \<open>
  Of \<^verbatim>\<open>createCluster\<close> the model keeps what runs per connection: the connection listener
  and the listeners it installs. Removing a stale socket file and listening on the path
  touch neither the registry nor the buffer.
\<close>

text \<open>
  The handler that \<^verbatim>\<open>createCluster\<close> binds to \<^verbatim>\<open>parseSocketData\<close> for the accepted
  connection \<open>socket\<close>. The destructuring \<^verbatim>\<open>const { markets, indexes } = data.data\<close> throws on
  null and undefined; \<^verbatim>\<open>socket.indexes.join\<close> throws unless \<^verbatim>\<open>indexes\<close> is an array, after the
  two fields of the socket have been assigned.
\<close>

definition hub_callback :: "subscribers \<Rightarrow> nat \<Rightarrow> callback" where
  "hub_callback subs socket data st =
     (if get_prop data ''op'' = Some (JStr ''welcome'') then
        (case get_prop data ''data'' of
           None \<Rightarrow> (Throw TypeError, st)
         | Some JNull \<Rightarrow> (Throw TypeError, st)
         | Some d \<Rightarrow>
             let st1 = st\<lparr>sockets := (sockets st)(socket :=
                          (sockets st socket)\<lparr>markets := get_prop d ''markets'',
                                              indexes := get_prop d ''indexes''\<rparr>)\<rparr> in
             (case get_prop d ''indexes'' of
                Some (JArr xs) \<Rightarrow>
                  (Normal, (console_write (Registered xs) st1)
                             \<lparr>clusteredCollectors := clusteredCollectors st1 @ [socket]\<rparr>)
              | _ \<Rightarrow> (Throw TypeError, st1)))
      else emit subs (get_prop data ''op'') (get_prop data ''data'') st)"

text \<open>\<^verbatim>\<open>xs.indexOf(x)\<close> on an array of references, \<open>None\<close> for \<open>-1\<close>.\<close>

fun indexOf :: "'a list \<Rightarrow> 'a \<Rightarrow> nat option" where
  "indexOf [] x = None"
| "indexOf (y # ys) x = (if y = x then Some 0 else map_option Suc (indexOf ys x))"

text \<open>\<^verbatim>\<open>xs.splice(index, 1)\<close>\<close>

definition splice1 :: "nat \<Rightarrow> 'a list \<Rightarrow> 'a list" where
  "splice1 index xs = take index xs @ drop (Suc index) xs"

definition destroy :: "nat \<Rightarrow> service \<Rightarrow> service" where
  "destroy socket st = st\<lparr>sockets := (sockets st)(socket := (sockets st socket)\<lparr>destroyed := True\<rparr>)\<rparr>"

text \<open>The connection listener of \<^verbatim>\<open>net.createServer\<close>, for the new connection \<open>socket\<close>.\<close>

definition hub_connection :: "nat \<Rightarrow> service \<Rightarrow> service" where
  "hub_connection socket st =
     (console_write (Msg ''[socket/cluster] collector connected successfully'') st)
        \<lparr>pendingSocketData := []\<rparr>"

text \<open>The \<^verbatim>\<open>'end'\<close> listener of the connection \<open>socket\<close>.\<close>

definition hub_end :: "nat \<Rightarrow> service \<Rightarrow> service" where
  "hub_end socket st =
     (let st1 = console_write (Msg ''[socket/cluster] collector disconnected (unexpectedly)'') st;
          st2 = (case indexOf (clusteredCollectors st1) socket of
                   None \<Rightarrow> st1
                 | Some index \<Rightarrow>
                     st1\<lparr>clusteredCollectors := splice1 index (clusteredCollectors st1)\<rparr>)
      in destroy socket st2)"

text \<open>The \<^verbatim>\<open>'data'\<close> listener of the connection \<open>socket\<close>.\<close>

definition hub_data :: "parser \<Rightarrow> subscribers \<Rightarrow> nat \<Rightarrow> service \<Rightarrow> string \<Rightarrow> completion \<times> service" where
  "hub_data parse subs socket st stringData =
     parseSocketData parse (hub_callback subs socket) st stringData"

datatype hub_event = Connection nat | Data nat string | End nat

fun hub_step :: "parser \<Rightarrow> subscribers \<Rightarrow> service \<Rightarrow> hub_event \<Rightarrow> completion \<times> service" where
  "hub_step parse subs st (Connection socket) = (Normal, hub_connection socket st)"
| "hub_step parse subs st (Data socket stringData) = hub_data parse subs socket st stringData"
| "hub_step parse subs st (End socket) = (Normal, hub_end socket st)"

fun hub_run :: "parser \<Rightarrow> subscribers \<Rightarrow> service \<Rightarrow> hub_event list \<Rightarrow> completion \<times> service" where
  "hub_run parse subs st [] = (Normal, st)"
| "hub_run parse subs st (e # es) =
     (case hub_step parse subs st e of
        (Throw err, st') \<Rightarrow> (Throw err, st')
      | (Normal, st') \<Rightarrow> hub_run parse subs st' es)"

text \<open>
  \<^verbatim>\<open>xs.indexOf(market) !== -1\<close> where \<open>xs\<close> is a field of a socket: on an array the test is
  strict equality with an element. On a string \<^verbatim>\<open>indexOf\<close> searches a substring; no other
  value has the method, and the call throws.
\<close>

fun occurs_in :: "string \<Rightarrow> string \<Rightarrow> bool" where
  "occurs_in p [] = (p = [])"
| "occurs_in p (c # cs) = (take (length p) (c # cs) = p \<or> occurs_in p cs)"

fun contains :: "json option \<Rightarrow> string \<Rightarrow> exn + bool" where
  "contains (Some (JArr xs)) market = Inr (JStr market \<in> set xs)"
| "contains (Some (JStr s)) market = Inr (occurs_in market s)"
| "contains v market = Inl TypeError"

text \<open>The loop of \<^verbatim>\<open>getNodeByMarket\<close> over the registry; \<open>None\<close> is the fall through.\<close>

fun scan :: "(nat \<Rightarrow> sock) \<Rightarrow> bool \<Rightarrow> string \<Rightarrow> nat list \<Rightarrow> exn + nat option" where
  "scan store isIndex market [] = Inr None"
| "scan store isIndex market (c # cs) =
     (case contains (if isIndex then indexes (store c) else markets (store c)) market of
        Inl err \<Rightarrow> Inl err
      | Inr True \<Rightarrow> Inr (Some c)
      | Inr False \<Rightarrow> scan store isIndex market cs)"

definition getNodeByMarket :: "service \<Rightarrow> string \<Rightarrow> exn + nat option" where
  "getNodeByMarket st market =
     (let isIndex = (CHR '':'' \<notin> set market) in
      scan (sockets st) isIndex market (clusteredCollectors st))"

section \<open>The spoke: connectToCluster and reconnectCluster\<close>

text \<open>
  \<^verbatim>\<open>net.createConnection\<close> makes a new socket object. The listeners that
  \<^verbatim>\<open>connectToCluster\<close> installs on it refer to \<^verbatim>\<open>this\<close> only, never to the socket that
  raised the event, so an event is modelled without the name of its socket.
\<close>

definition connectToCluster :: "service \<Rightarrow> service" where
  "connectToCluster st =
     (if clusterSocket st \<noteq> None
      then console_write (Msg ''[socket/collector] already connected (aborting)'') st
      else
        let st1 = console_write (Msg ''[socket/collector] connecting to cluster..'') st;
            socket = nextId st1
        in st1\<lparr>clusterSocket := Some socket,
                sockets := (sockets st1)(socket := new_sock),
                nextId := Suc socket,
                pendingSocketData := []\<rparr>)"

text \<open>
  The frame that the \<^verbatim>\<open>'connect'\<close> listener writes, before \<^verbatim>\<open>JSON.stringify\<close> and the
  delimiter: \<open>pairs\<close> is \<^verbatim>\<open>config.pairs\<close>, \<open>ids\<close> the identifiers of the configured indexes.
\<close>

definition welcome_frame :: "json list \<Rightarrow> json list \<Rightarrow> json" where
  "welcome_frame pairs ids =
     JObj [(''op'', JStr ''welcome''),
           (''data'', JObj [(''markets'', JArr pairs), (''indexes'', JArr ids)])]"

definition spoke_connect :: "json list \<Rightarrow> json list \<Rightarrow> service \<Rightarrow> completion \<times> service" where
  "spoke_connect pairs ids st =
     (let st1 = console_write (Msg ''[socket/collector] successfully connected to cluster'') st in
      case clusterSocket st1 of
        None \<Rightarrow> (Throw TypeError, st1)
      | Some socket \<Rightarrow>
          (Normal, st1\<lparr>sockets := (sockets st1)(socket :=
              (sockets st1 socket)\<lparr>written := written (sockets st1 socket) @ [welcome_frame pairs ids]\<rparr>)\<rparr>))"

definition spoke_callback :: "subscribers \<Rightarrow> callback" where
  "spoke_callback subs data st = emit subs (get_prop data ''op'') (get_prop data ''data'') st"

definition spoke_data :: "parser \<Rightarrow> subscribers \<Rightarrow> service \<Rightarrow> string \<Rightarrow> completion \<times> service" where
  "spoke_data parse subs st stringData = parseSocketData parse (spoke_callback subs) st stringData"

text \<open>
  \<^verbatim>\<open>setTimeout\<close> hands a new timer to the event loop and returns it; \<^verbatim>\<open>clearTimeout\<close> takes
  a timer away from the loop. The delay is a constant of the configuration; time itself is
  not part of the model, a timer that is still held may fire at any later step.
\<close>

definition setTimeout :: "service \<Rightarrow> nat \<times> service" where
  "setTimeout st = (nextId st, st\<lparr>timers := timers st @ [nextId st], nextId := Suc (nextId st)\<rparr>)"

definition clearTimeout :: "nat \<Rightarrow> service \<Rightarrow> service" where
  "clearTimeout t st = st\<lparr>timers := removeAll t (timers st)\<rparr>"

definition reconnectCluster :: "service \<Rightarrow> service" where
  "reconnectCluster st =
     (let st1 = (case clusterSocket st of
                   Some socket \<Rightarrow> (destroy socket st)\<lparr>clusterSocket := None\<rparr>
                 | None \<Rightarrow> st);
          st2 = (case clusterConnectionTimeout st1 of
                   Some t \<Rightarrow> clearTimeout t st1
                 | None \<Rightarrow>
                     console_write (Msg ''[socket/collector] schedule reconnect to cluster'') st1);
          (t, st3) = setTimeout st2
      in st3\<lparr>clusterConnectionTimeout := Some t\<rparr>)"

text \<open>The function given to \<^verbatim>\<open>setTimeout\<close>.\<close>

definition timeout_callback :: "service \<Rightarrow> service" where
  "timeout_callback st = connectToCluster (st\<lparr>clusterConnectionTimeout := None\<rparr>)"

text \<open>The event loop fires a timer it still holds, and drops it; no other timer fires.\<close>

definition fire :: "nat \<Rightarrow> service \<Rightarrow> service" where
  "fire t st =
     (if t \<in> set (timers st) then timeout_callback (st\<lparr>timers := removeAll t (timers st)\<rparr>)
      else st)"

definition spoke_close :: "bool \<Rightarrow> service \<Rightarrow> service" where
  "spoke_close hadError st =
     reconnectCluster (console_write (Msg ''[socket/collector] cluster closed'') st)"

definition spoke_error :: "service \<Rightarrow> service" where
  "spoke_error st = reconnectCluster st"

text \<open>
  \<^verbatim>\<open>close()\<close> up to its \<^verbatim>\<open>await\<close>: with a socket it ends the socket and waits for the
  acknowledgement; without one it does nothing.
\<close>

definition close :: "service \<Rightarrow> service" where
  "close st =
     (case clusterSocket st of
        Some socket \<Rightarrow>
          (console_write (Msg ''[socket/collector] closing cluster connection'') st)
            \<lparr>sockets := (sockets st)(socket := (sockets st socket)\<lparr>ended := True\<rparr>)\<rparr>
      | None \<Rightarrow> st)"

datatype spoke_event =
    CallConnect
  | OnConnect
  | OnData string
  | OnClose bool
  | OnError
  | Timeout nat
  | CallClose

fun spoke_step :: "parser \<Rightarrow> subscribers \<Rightarrow> json list \<Rightarrow> json list \<Rightarrow> service \<Rightarrow> spoke_event \<Rightarrow> completion \<times> service" where
  "spoke_step parse subs pairs ids st CallConnect = (Normal, connectToCluster st)"
| "spoke_step parse subs pairs ids st OnConnect = spoke_connect pairs ids st"
| "spoke_step parse subs pairs ids st (OnData stringData) = spoke_data parse subs st stringData"
| "spoke_step parse subs pairs ids st (OnClose hadError) = (Normal, spoke_close hadError st)"
| "spoke_step parse subs pairs ids st OnError = (Normal, spoke_error st)"
| "spoke_step parse subs pairs ids st (Timeout t) = (Normal, fire t st)"
| "spoke_step parse subs pairs ids st CallClose = (Normal, close st)"

fun spoke_run :: "parser \<Rightarrow> subscribers \<Rightarrow> json list \<Rightarrow> json list \<Rightarrow> service \<Rightarrow> spoke_event list \<Rightarrow> completion \<times> service" where
  "spoke_run parse subs pairs ids st [] = (Normal, st)"
| "spoke_run parse subs pairs ids st (e # es) =
     (case spoke_step parse subs pairs ids st e of
        (Throw err, st') \<Rightarrow> (Throw err, st')
      | (Normal, st') \<Rightarrow> spoke_run parse subs pairs ids st' es)"

text \<open>The constructor in the collector role calls \<^verbatim>\<open>connectToCluster\<close> once.\<close>

definition spoke_init :: service where
  "spoke_init = connectToCluster init"

text \<open>
  The timers of the event loop agree with the field \<^verbatim>\<open>_clusterConnectionTimeout\<close>: the loop
  holds the timer that the field names and no other, and timer names are never reused.
\<close>

definition timer_inv :: "service \<Rightarrow> bool" where
  "timer_inv st \<longleftrightarrow>
     timers st = (case clusterConnectionTimeout st of None \<Rightarrow> [] | Some t \<Rightarrow> [t]) \<and>
     (\<forall>t\<in>set (timers st). t < nextId st)"

text \<open>The part of the state that the timers depend on.\<close>

definition timer_view :: "service \<Rightarrow> nat list \<times> nat option \<times> nat" where
  "timer_view st = (timers st, clusterConnectionTimeout st, nextId st)"

section \<open>Handshakes in a run of the hub\<close>

text \<open>
  The hub announces a completed handshake on the console (the line
  \<^verbatim>\<open>registered collector with indexes\<close>) just before it pushes the connection.
  \<open>announced\<close> counts these lines.
\<close>

fun is_registered :: "log \<Rightarrow> bool" where
  "is_registered (Registered xs) = True"
| "is_registered l = False"

definition announced :: "service \<Rightarrow> nat" where
  "announced st = length (filter is_registered (console st))"




text \<open>
  The registry grows in step with the announcements: what is appended between two states
  is the connection, once for each announcement in between.
\<close>

definition tracks :: "nat \<Rightarrow> service \<Rightarrow> service \<Rightarrow> bool" where
  "tracks socket st st' \<longleftrightarrow>
     clusteredCollectors st' =
       clusteredCollectors st @ replicate (announced st' - announced st) socket \<and>
     announced st \<le> announced st'"

section \<open>Properties of the codec\<close>

lemma try_callback_Normal: "fst (try_callback cb json st) = Normal"
  by (simp add: try_callback_def split: option.splits prod.splits completion.splits)

lemma try_callback_NormalD: "try_callback cb json st = (r, st') \<Longrightarrow> r = Normal"
  using try_callback_Normal [of cb json st] by simp

lemma segment_Normal: "fst (segment parse cb inc n i chunk st) = Normal"
  by (auto simp add: segment_def Let_def split: prod.splits completion.splits
      dest: try_callback_NormalD)

lemma segments_Normal: "fst (segments parse cb inc n i chunks st) = Normal"
proof (induction chunks arbitrary: i st)
  case Nil
  show ?case by simp
next
  case (Cons c cs)
  obtain r st' where seg: "segment parse cb inc n i c st = (r, st')"
    by (cases "segment parse cb inc n i c st")
  with segment_Normal [of parse cb inc n i c st] have "r = Normal" by simp
  with seg Cons.IH [of "Suc i" st'] show ?case by simp
qed

lemma parseSocketData_Normal: "fst (parseSocketData parse cb st stringData) = Normal"
  by (simp add: parseSocketData_def Let_def segments_Normal)

lemma segment_flushes:
  assumes "chunk \<noteq> []" and "\<not> (i = n - 1 \<and> inc)"
  shows "pendingSocketData (snd (segment parse cb inc n i chunk st)) = []"
  using assms
  by (auto simp add: segment_def Let_def split: prod.splits completion.splits
      dest: try_callback_NormalD)

lemma segment_parse_failure:
  assumes "chunk \<noteq> []" and "\<not> (i = n - 1 \<and> inc)"
    and "parse (pendingSocketData st @ chunk) = Inl err"
  shows "segment parse cb inc n i chunk st =
           (Normal, (console_write (ParseFailed (pendingSocketData st @ chunk)) st)
                      \<lparr>pendingSocketData := []\<rparr>)"
  using assms
  by (auto simp add: segment_def try_parse_def try_callback_def console_write_def Let_def)

lemma segment_empty: "segment parse cb inc n i [] st = (Normal, st)"
  by (simp add: segment_def)

lemma segments_complete_buffer:
  "pendingSocketData (snd (segments parse cb False n i chunks st)) =
     (if \<forall>c\<in>set chunks. c = [] then pendingSocketData st else [])"
proof (induction chunks arbitrary: i st)
  case Nil
  show ?case by simp
next
  case (Cons c cs)
  obtain st' where seg: "segment parse cb False n i c st = (Normal, st')"
    using segment_Normal [of parse cb False n i c st]
    by (cases "segment parse cb False n i c st") simp
  show ?case
  proof (cases "c = []")
    case True
    with seg have "st' = st" by (simp add: segment_def)
    with seg True Cons.IH [of "Suc i" st] show ?thesis by simp
  next
    case False
    with segment_flushes [of c i n False parse cb st] seg
    have "pendingSocketData st' = []" by simp
    with seg False Cons.IH [of "Suc i" st'] show ?thesis by simp
  qed
qed

lemma split_not_Nil: "split d s \<noteq> []"
  by (induction s) (auto split: list.splits)

lemma split_all_empty: "(\<forall>p\<in>set (split d s). p = []) \<longleftrightarrow> (\<forall>c\<in>set s. c = d)"
proof (induction s)
  case Nil
  show ?case by simp
next
  case (Cons c cs)
  show ?case
  proof (cases "c = d")
    case True
    with Cons show ?thesis by simp
  next
    case False
    obtain p ps where "split d cs = p # ps"
      using split_not_Nil [of d cs] by (cases "split d cs") auto
    with False show ?thesis by auto
  qed
qed

lemma parseSocketData_complete_buffer:
  assumes "stringData \<noteq> []" and "last stringData = CHR ''#''"
    and "\<exists>c\<in>set stringData. c \<noteq> CHR ''#''"
  shows "pendingSocketData (snd (parseSocketData parse cb st stringData)) = []"
proof -
  from assms(1,2) have "CHR ''#'' \<in> set stringData"
    using last_in_set by metis
  moreover from assms(3) have "\<not> (\<forall>p\<in>set (split (CHR ''#'') stringData). p = [])"
    by (simp add: split_all_empty)
  ultimately show ?thesis
    using assms(1,2) by (auto simp add: parseSocketData_def Let_def segments_complete_buffer)
qed

lemma bad_json_1: "JSON_parse ''{bad'' = Inl SyntaxError"
  by code_simp

lemma bad_json_2: "JSON_parse ''json}'' = Inl SyntaxError"
  by code_simp

lemma split_bad: "split (CHR ''#'') ''{bad#json}#'' = [''{bad'', ''json}'', []]"
  by simp

lemma bad_frame:
  assumes "pendingSocketData st = []"
  shows "parseSocketData JSON_parse cb st ''{bad#json}#'' =
        (Normal, console_write (ParseFailed ''json}'') (console_write (ParseFailed ''{bad'') st))"
proof -
  have 1: "segment JSON_parse cb False (Suc (Suc (Suc 0))) 0 ''{bad'' st =
     (Normal, (console_write (ParseFailed ''{bad'') st)\<lparr>pendingSocketData := []\<rparr>)"
    using segment_parse_failure [of "''{bad''" 0 "Suc (Suc (Suc 0))" False JSON_parse st SyntaxError cb] assms bad_json_1
    by simp
  have 2: "segment JSON_parse cb False (Suc (Suc (Suc 0))) (Suc 0) ''json}'' ((console_write (ParseFailed ''{bad'') st)\<lparr>pendingSocketData := []\<rparr>) =
     (Normal, (console_write (ParseFailed ''json}'') ((console_write (ParseFailed ''{bad'') st)\<lparr>pendingSocketData := []\<rparr>))\<lparr>pendingSocketData := []\<rparr>)"
    using segment_parse_failure [of "''json}''" "Suc 0" "Suc (Suc (Suc 0))" False JSON_parse "(console_write (ParseFailed ''{bad'') st)\<lparr>pendingSocketData := []\<rparr>" SyntaxError cb] bad_json_2
    by simp
  have 3: "(console_write (ParseFailed ''json}'') ((console_write (ParseFailed ''{bad'') st)\<lparr>pendingSocketData := []\<rparr>))\<lparr>pendingSocketData := []\<rparr>
    = console_write (ParseFailed ''json}'') (console_write (ParseFailed ''{bad'') st)"
    using assms by (cases st) (simp add: console_write_def)
  show ?thesis
    unfolding parseSocketData_def
    apply (simp only: Let_def split_bad)
    apply (simp add: 1 2 3 segment_empty)
    done
qed

lemma split_no_delim: "d \<notin> set f \<Longrightarrow> split d f = [f]"
  by (induction f) auto

lemma split_append_delim: "d \<notin> set f \<Longrightarrow> split d (f @ d # rest) = f # split d rest"
  by (induction f) auto

lemma segment_delivers:
  assumes "chunk \<noteq> []" and "\<not> (i = n - 1 \<and> inc)"
    and "parse (pendingSocketData st @ chunk) = Inr v"
  shows "segment parse cb inc n i chunk st =
           (Normal, (snd (try_callback cb (Some v)
                       (st\<lparr>pendingSocketData := pendingSocketData st @ chunk\<rparr>)))
                    \<lparr>pendingSocketData := []\<rparr>)"
  using assms
  by (auto simp add: segment_def try_parse_def Let_def
      split: prod.splits completion.splits dest: try_callback_NormalD)

lemma parseSocketData_frame:
  assumes "CHR ''#'' \<notin> set frame"
  shows "parseSocketData parse cb st (frame @ ''#'') = segment parse cb False 2 0 frame st"
proof -
  have sp: "split (CHR ''#'') (frame @ ''#'') = [frame, []]"
    using split_append_delim [OF assms, of "[]"] by simp
  obtain st' where seg: "segment parse cb False (Suc (Suc 0)) 0 frame st = (Normal, st')"
    using segment_Normal [of parse cb False "Suc (Suc 0)" 0 frame st]
    by (cases "segment parse cb False (Suc (Suc 0)) 0 frame st") simp
  show ?thesis
    by (simp add: parseSocketData_def Let_def sp seg segment_empty numeral_2_eq_2)
qed

lemma parseSocketData_delivers:
  assumes "frame \<noteq> []" and "CHR ''#'' \<notin> set frame"
    and "parse (pendingSocketData st @ frame) = Inr v"
  shows "parseSocketData parse cb st (frame @ ''#'') =
           (Normal, (snd (try_callback cb (Some v)
                       (st\<lparr>pendingSocketData := pendingSocketData st @ frame\<rparr>)))
                    \<lparr>pendingSocketData := []\<rparr>)"
  using parseSocketData_frame [OF assms(2), of parse cb st]
    segment_delivers [of frame 0 2 False parse st v cb] assms
  by simp

lemma try_callback_emitted:
  assumes "truthy v"
  shows "emitted (snd (try_callback cb (Some v) st)) = emitted (snd (cb v st))"
  using assms
  by (simp add: try_callback_def console_write_def split: prod.splits completion.splits)

lemma try_callback_preserves:
  assumes "\<And>l s. f (console_write l s) = f s" and "\<And>v s. f (snd (cb v s)) = f s"
  shows "f (snd (try_callback cb json st)) = f st"
proof (cases json)
  case None
  then show ?thesis by (simp add: try_callback_def)
next
  case (Some v)
  obtain r st' where c: "cb v st = (r, st')" by (cases "cb v st")
  with assms(2) [of v st] have "f st' = f st" by simp
  with Some c assms(1) show ?thesis
    by (cases r) (simp_all add: try_callback_def)
qed

lemma segment_preserves:
  assumes "\<And>x s. f (s\<lparr>pendingSocketData := x\<rparr>) = f s"
    and "\<And>l s. f (console_write l s) = f s" and "\<And>v s. f (snd (cb v s)) = f s"
  shows "f (snd (segment parse cb inc n i chunk st)) = f st"
proof (cases "chunk = [] \<or> (i = n - 1 \<and> inc)")
  case True
  then show ?thesis by (auto simp add: segment_def Let_def assms(1))
next
  case False
  let ?st1 = "st\<lparr>pendingSocketData := pendingSocketData st @ chunk\<rparr>"
  obtain json st2 where p: "try_parse parse ?st1 = (json, st2)"
    by (cases "try_parse parse ?st1")
  then have 2: "f st2 = f st"
    by (auto simp add: try_parse_def assms(1,2) split: sum.splits)
  obtain st3 where t: "try_callback cb json st2 = (Normal, st3)"
    using try_callback_Normal [of cb json st2] by (cases "try_callback cb json st2") simp
  with try_callback_preserves [of f cb json st2, OF assms(2,3)] have "f st3 = f st2" by simp
  with False p t 2 show ?thesis
    by (auto simp add: segment_def Let_def assms(1))
qed

lemma segments_preserves:
  assumes "\<And>x s. f (s\<lparr>pendingSocketData := x\<rparr>) = f s"
    and "\<And>l s. f (console_write l s) = f s" and "\<And>v s. f (snd (cb v s)) = f s"
  shows "f (snd (segments parse cb inc n i chunks st)) = f st"
proof (induction chunks arbitrary: i st)
  case Nil
  show ?case by simp
next
  case (Cons c cs)
  obtain st' where seg: "segment parse cb inc n i c st = (Normal, st')"
    using segment_Normal [of parse cb inc n i c st]
    by (cases "segment parse cb inc n i c st") simp
  with segment_preserves [of f cb parse inc n i c st, OF assms] have "f st' = f st" by simp
  with seg Cons.IH [of "Suc i" st'] show ?case by simp
qed

lemma parseSocketData_preserves:
  assumes "\<And>x s. f (s\<lparr>pendingSocketData := x\<rparr>) = f s"
    and "\<And>l s. f (console_write l s) = f s" and "\<And>v s. f (snd (cb v s)) = f s"
  shows "f (snd (parseSocketData parse cb st stringData)) = f st"
  using segments_preserves [of f cb, OF assms] assms(1)
  by (simp add: parseSocketData_def Let_def)

lemma segment_last_test:
  assumes "(i = n - 1 \<and> inc) = (i' = n' - 1 \<and> inc')"
  shows "segment parse cb inc n i chunk st = segment parse cb inc' n' i' chunk st"
  using assms by (simp add: segment_def)

lemma segments_pieces:
  assumes "i + length chunks = n"
  shows "segments parse cb inc n i chunks st = (Normal, pieces parse cb inc chunks st)"
  using assms
proof (induction chunks arbitrary: i st)
  case Nil
  show ?case by simp
next
  case (Cons c cs)
  from Cons.prems have "(i = n - 1 \<and> inc) = ((0::nat) = 1 - 1 \<and> (inc \<and> cs = []))"
    by auto
  from segment_last_test [OF this]
  have e: "segment parse cb inc n i c st = segment parse cb (inc \<and> cs = []) 1 0 c st" .
  obtain st' where s: "segment parse cb inc n i c st = (Normal, st')"
    using segment_Normal [of parse cb inc n i c st]
    by (cases "segment parse cb inc n i c st") simp
  from Cons.prems have "Suc i + length cs = n" by simp
  from Cons.IH [OF this, of st'] s e show ?case by simp
qed

lemma parseSocketData_pieces:
  "parseSocketData parse cb st stringData =
     (Normal, pieces parse cb (stringData = [] \<or> last stringData \<noteq> CHR ''#'')
                (split (CHR ''#'') stringData) st)"
proof (cases "CHR ''#'' \<in> set stringData")
  case True
  then show ?thesis
    using segments_pieces [of 0 "split (CHR ''#'') stringData"]
    by (simp add: parseSocketData_def Let_def)
next
  case False
  then have "stringData = [] \<or> last stringData \<noteq> CHR ''#''"
    by (metis last_in_set)
  then have i: "(stringData = [] \<or> last stringData \<noteq> CHR ''#'') = True" by simp
  show ?thesis
    unfolding parseSocketData_def Let_def i
    using False by (simp add: split_no_delim segment_def)
qed

lemma pieces_append:
  assumes "ys \<noteq> []"
  shows "pieces parse cb inc (xs @ ys) st = pieces parse cb inc ys (pieces parse cb False xs st)"
  using assms by (induction xs arbitrary: st) simp_all

lemma segment_buffered:
  assumes "chunk \<noteq> []"
  shows "segment parse cb inc n i (p @ chunk) st =
           segment parse cb inc n i chunk (st\<lparr>pendingSocketData := pendingSocketData st @ p\<rparr>)"
  using assms by (simp add: segment_def)

lemma segment_tail:
  assumes "chunk \<noteq> [] \<longrightarrow> inc"
  shows "snd (segment parse cb inc 1 0 chunk st) =
           st\<lparr>pendingSocketData := pendingSocketData st @ chunk\<rparr>"
  using assms by (cases "chunk = []") (simp_all add: segment_def)

lemma split_append:
  "split d (a @ b) =
     butlast (split d a) @ (last (split d a) @ hd (split d b)) # tl (split d b)"
proof (induction a)
  case Nil
  show ?case using split_not_Nil [of d b] by simp
next
  case (Cons c a)
  obtain p ps where s: "split d a = p # ps"
    using split_not_Nil [of d a] by (cases "split d a") auto
  obtain q qs where t: "split d (a @ b) = q # qs"
    using split_not_Nil [of d "a @ b"] by (cases "split d (a @ b)") auto
  from Cons s t show ?case
    by (cases "c = d"; cases ps) auto
qed

lemma split_hd: "b \<noteq> [] \<Longrightarrow> hd b \<noteq> d \<Longrightarrow> hd (split d b) \<noteq> []"
  by (cases b) (auto split: list.splits)

lemma split_single: "split d a = [p] \<Longrightarrow> p = a \<and> d \<notin> set a"
proof (induction a arbitrary: p)
  case Nil
  then show ?case by simp
next
  case (Cons c a)
  obtain q qs where s: "split d a = q # qs"
    using split_not_Nil [of d a] by (cases "split d a") auto
  from Cons.prems s split_not_Nil [of d a] have cd: "c \<noteq> d" and qs: "qs = []" and p: "p = c # q"
    by (auto split: if_splits)
  from Cons.IH [of q] s qs have "q = a \<and> d \<notin> set a" by simp
  with cd p show ?case by simp
qed

lemma split_last: "last (split d a) \<noteq> [] \<Longrightarrow> a \<noteq> [] \<and> last a \<noteq> d"
proof (induction a)
  case Nil
  then show ?case by simp
next
  case (Cons c a)
  obtain p ps where s: "split d a = p # ps"
    using split_not_Nil [of d a] by (cases "split d a") auto
  show ?case
  proof (cases "c \<noteq> d \<and> ps = []")
    case True
    with s split_single [of d a p] have "d \<notin> set a" by simp
    with True show ?thesis by auto
  next
    case False
    with Cons.prems s have l: "last (split d a) \<noteq> []"
      by (auto split: if_splits)
    with Cons.IH have "a \<noteq> [] \<and> last a \<noteq> d" by simp
    then show ?thesis by simp
  qed
qed

lemma two_chunks:
  assumes "b = [] \<or> hd b \<noteq> CHR ''#''"
  shows "feed parse cb st [a, b] = parseSocketData parse cb st (a @ b)"
proof (cases "b = []")
  case True
  obtain st' where a: "parseSocketData parse cb st a = (Normal, st')"
    using parseSocketData_Normal [of parse cb st a]
    by (cases "parseSocketData parse cb st a") simp
  have "parseSocketData parse cb st' [] = (Normal, st')"
    by (simp add: parseSocketData_def)
  with a True show ?thesis by simp
next
  case False
  with assms have hb: "hd b \<noteq> CHR ''#''" by simp
  let ?d = "CHR ''#''"
  let ?ia = "a = [] \<or> last a \<noteq> ?d"
  let ?ib = "b = [] \<or> last b \<noteq> ?d"
  let ?A0 = "butlast (split ?d a)"
  let ?la = "last (split ?d a)"
  let ?b0 = "hd (split ?d b)"
  let ?B = "tl (split ?d b)"
  let ?T = "pieces parse cb False ?A0 st"
  have A: "split ?d a = ?A0 @ [?la]"
    using split_not_Nil [of ?d a] by simp
  have B: "split ?d b = ?b0 # ?B"
    using split_not_Nil [of ?d b] by simp
  have b0: "?b0 \<noteq> []" by (rule split_hd [OF False hb])
  have la: "?la \<noteq> [] \<longrightarrow> ?ia" using split_last [of ?d a] by blast
  have iab: "(a @ b = [] \<or> last (a @ b) \<noteq> ?d) = ?ib" using False by simp
  have "pieces parse cb ?ia (split ?d a) st = pieces parse cb ?ia [?la] ?T"
    using pieces_append [of "[?la]" parse cb ?ia ?A0 st] A by simp
  also have "\<dots> = ?T\<lparr>pendingSocketData := pendingSocketData ?T @ ?la\<rparr>"
    using segment_tail [of ?la ?ia parse cb ?T] la by simp
  finally have after_a: "pieces parse cb ?ia (split ?d a) st =
      ?T\<lparr>pendingSocketData := pendingSocketData ?T @ ?la\<rparr>" .
  have "pieces parse cb ?ib (split ?d (a @ b)) st =
      pieces parse cb ?ib ((?la @ ?b0) # ?B) ?T"
    using pieces_append [of "(?la @ ?b0) # ?B" parse cb ?ib ?A0 st]
    by (simp add: split_append [of ?d a b])
  also have "\<dots> = pieces parse cb ?ib ?B
      (snd (segment parse cb (?ib \<and> ?B = []) 1 0 (?la @ ?b0) ?T))"
    by simp
  also have "\<dots> = pieces parse cb ?ib ?B
      (snd (segment parse cb (?ib \<and> ?B = []) 1 0 ?b0
         (?T\<lparr>pendingSocketData := pendingSocketData ?T @ ?la\<rparr>)))"
    by (simp only: segment_buffered [OF b0])
  also have "\<dots> = pieces parse cb ?ib (?b0 # ?B)
      (?T\<lparr>pendingSocketData := pendingSocketData ?T @ ?la\<rparr>)"
    by simp
  also have "\<dots> = pieces parse cb ?ib (split ?d b) (pieces parse cb ?ia (split ?d a) st)"
    using B after_a by simp
  finally have "pieces parse cb ?ib (split ?d (a @ b)) st =
      pieces parse cb ?ib (split ?d b) (pieces parse cb ?ia (split ?d a) st)" .
  note eq = this
  have ab: "parseSocketData parse cb st (a @ b) =
      (Normal, pieces parse cb ?ib (split ?d (a @ b)) st)"
    by (simp only: parseSocketData_pieces iab)
  have fa: "parseSocketData parse cb st a = (Normal, pieces parse cb ?ia (split ?d a) st)"
    by (rule parseSocketData_pieces)
  have fb: "parseSocketData parse cb (pieces parse cb ?ia (split ?d a) st) b =
      (Normal, pieces parse cb ?ib (split ?d b) (pieces parse cb ?ia (split ?d a) st))"
    by (rule parseSocketData_pieces)
  have "feed parse cb st [a, b] =
      (Normal, pieces parse cb ?ib (split ?d b) (pieces parse cb ?ia (split ?d a) st))"
    by (simp only: feed.simps fa fb prod.case completion.case)
  with ab eq show ?thesis by (simp only:)
qed

lemma concat_no_delim_first:
  assumes "\<forall>c\<in>set cs. c = [] \<or> hd c \<noteq> d"
  shows "concat cs = [] \<or> hd (concat cs) \<noteq> d"
  using assms
proof (induction cs)
  case Nil
  show ?case by simp
next
  case (Cons c cs)
  then show ?case by (cases c) auto
qed

lemma feed_two: "feed parse cb st [a, b] = feed parse cb (snd (parseSocketData parse cb st a)) [b]"
  using parseSocketData_Normal [of parse cb st a]
  by (cases "parseSocketData parse cb st a") simp

lemma feed_Cons:
  "feed parse cb st (c # cs) = feed parse cb (snd (parseSocketData parse cb st c)) cs"
  using parseSocketData_Normal [of parse cb st c]
  by (cases "parseSocketData parse cb st c") simp

lemma feed_one: "feed parse cb st [c] = parseSocketData parse cb st c"
proof -
  obtain st' where "parseSocketData parse cb st c = (Normal, st')"
    using parseSocketData_Normal [of parse cb st c]
    by (cases "parseSocketData parse cb st c") simp
  then show ?thesis by simp
qed

section \<open>Properties of the hub\<close>

lemma hub_callback_emitted:
  "emitted (snd (hub_callback subs socket data st)) =
     (if get_prop data ''op'' = Some (JStr ''welcome'') then emitted st
      else emitted st @ [(get_prop data ''op'', get_prop data ''data'')])"
  by (simp add: hub_callback_def emit_def console_write_def Let_def
      split: option.splits json.splits)















lemma scan_find:
  assumes "\<forall>c\<in>set cs. (if isIndex then indexes (store c) else markets (store c)) = Some (JArr (owned c))"
  shows "scan store isIndex market cs = Inr (find (\<lambda>c. JStr market \<in> set (owned c)) cs)"
  using assms
proof (induction cs)
  case Nil
  show ?case by simp
next
  case (Cons c cs)
  then show ?case by (cases isIndex) auto
qed

lemma tracks_same:
  "clusteredCollectors st' = clusteredCollectors st \<Longrightarrow> announced st' = announced st \<Longrightarrow>
   tracks socket st st'"
  by (simp add: tracks_def)










lemma hub_end_announced: "announced (hub_end socket st) = announced st"
  by (simp add: hub_end_def destroy_def announced_def console_write_def Let_def split: option.splits)



lemma contains_TypeError:
  "contains v market = Inl TypeError \<longleftrightarrow>
     (\<forall>xs. v \<noteq> Some (JArr xs)) \<and> (\<forall>s. v \<noteq> Some (JStr s))"
proof (cases v)
  case None
  then show ?thesis by simp
next
  case (Some j)
  then show ?thesis by (cases j) simp_all
qed

lemma scan_prefix:
  assumes "\<forall>x\<in>set pre. contains (if isIndex then indexes (store x) else markets (store x)) market
      = Inr False"
  shows "scan store isIndex market (pre @ cs) = scan store isIndex market cs"
  using assms by (induction pre) simp_all

lemma scan_prefix_arrays:
  assumes "\<forall>x\<in>set pre. (if isIndex then indexes (store x) else markets (store x)) =
      Some (JArr (owned x)) \<and> JStr market \<notin> set (owned x)"
  shows "scan store isIndex market (pre @ cs) = scan store isIndex market cs"
proof (rule scan_prefix)
  show "\<forall>x\<in>set pre. contains (if isIndex then indexes (store x) else markets (store x)) market
      = Inr False"
    using assms by (cases isIndex) auto
qed

section \<open>Properties of the timers of the spoke\<close>

lemma timer_inv_view: "timer_view st' = timer_view st \<Longrightarrow> timer_inv st' = timer_inv st"
  by (simp add: timer_view_def timer_inv_def)

lemma spoke_data_view: "timer_view (snd (spoke_data parse subs st stringData)) = timer_view st"
  unfolding spoke_data_def
  by (rule parseSocketData_preserves)
     (simp_all add: timer_view_def console_write_def spoke_callback_def emit_def)

lemma spoke_connect_view: "timer_view (snd (spoke_connect pairs ids st)) = timer_view st"
  by (simp add: spoke_connect_def timer_view_def console_write_def Let_def split: option.splits)

lemma connectToCluster_timers:
  "timers (connectToCluster st) = timers st"
  "clusterConnectionTimeout (connectToCluster st) = clusterConnectionTimeout st"
  "nextId st \<le> nextId (connectToCluster st)"
  by (simp_all add: connectToCluster_def console_write_def Let_def)

lemma connectToCluster_inv: "timer_inv st \<Longrightarrow> timer_inv (connectToCluster st)"
  using connectToCluster_timers [of st] by (fastforce simp add: timer_inv_def)

lemma close_timers:
  "timers (close st) = timers st"
  "clusterConnectionTimeout (close st) = clusterConnectionTimeout st"
  "nextId (close st) = nextId st"
  by (simp_all add: close_def console_write_def split: option.splits)

lemma close_inv: "timer_inv st \<Longrightarrow> timer_inv (close st)"
  by (simp add: timer_inv_def close_timers)

lemma reconnectCluster_timers:
  assumes "timer_inv st"
  shows "timers (reconnectCluster st) = [nextId st]"
    and "clusterConnectionTimeout (reconnectCluster st) = Some (nextId st)"
    and "nextId (reconnectCluster st) = Suc (nextId st)"
  using assms
  by (auto simp add: reconnectCluster_def timer_inv_def setTimeout_def clearTimeout_def
      destroy_def console_write_def Let_def split: option.splits)

lemma reconnectCluster_inv: "timer_inv st \<Longrightarrow> timer_inv (reconnectCluster st)"
  using reconnectCluster_timers [of st] by (simp add: timer_inv_def)

lemma console_write_inv: "timer_inv (console_write l st) = timer_inv st"
  by (simp add: timer_inv_def console_write_def)

lemma fire_timers:
  assumes "timer_inv st" and "t \<in> set (timers st)"
  shows "timers (fire t st) = []" and "clusterConnectionTimeout (fire t st) = None"
  using assms
  by (auto simp add: fire_def timeout_callback_def connectToCluster_timers timer_inv_def
      split: option.splits)

lemma fire_inv: "timer_inv st \<Longrightarrow> timer_inv (fire t st)"
proof (cases "t \<in> set (timers st)")
  case True
  assume "timer_inv st"
  with True fire_timers [of st t] show ?thesis by (simp add: timer_inv_def)
next
  case False
  assume "timer_inv st"
  with False show ?thesis by (simp add: fire_def)
qed

lemma spoke_step_inv:
  assumes "timer_inv st"
  shows "timer_inv (snd (spoke_step parse subs pairs ids st e))"
proof (cases e)
  case CallConnect
  with assms show ?thesis by (simp add: connectToCluster_inv)
next
  case OnConnect
  with assms timer_inv_view [OF spoke_connect_view [of pairs ids st]] show ?thesis by simp
next
  case (OnData d)
  with assms timer_inv_view [OF spoke_data_view [of parse subs st d]] show ?thesis by simp
next
  case (OnClose hadError)
  with assms show ?thesis by (simp add: spoke_close_def reconnectCluster_inv console_write_inv)
next
  case OnError
  with assms show ?thesis by (simp add: spoke_error_def reconnectCluster_inv)
next
  case (Timeout t)
  with assms show ?thesis by (simp add: fire_inv)
next
  case CallClose
  with assms show ?thesis by (simp add: close_inv)
qed

lemma spoke_run_inv:
  assumes "timer_inv st"
  shows "timer_inv (snd (spoke_run parse subs pairs ids st es))"
  using assms
proof (induction es arbitrary: st)
  case Nil
  then show ?case by simp
next
  case (Cons e es)
  obtain r st' where s: "spoke_step parse subs pairs ids st e = (r, st')"
    by (cases "spoke_step parse subs pairs ids st e")
  with spoke_step_inv [OF Cons.prems, of parse subs pairs ids e] have i: "timer_inv st'" by simp
  show ?case
  proof (cases r)
    case Normal
    with s Cons.IH [OF i] show ?thesis by simp
  next
    case (Throw err)
    with s i show ?thesis by simp
  qed
qed

lemma init_inv: "timer_inv init"
  by (simp add: timer_inv_def init_def)

lemma spoke_init_inv: "timer_inv spoke_init"
  unfolding spoke_init_def by (rule connectToCluster_inv [OF init_inv])

lemma timer_inv_length: "timer_inv st \<Longrightarrow> length (timers st) \<le> 1"
  by (simp add: timer_inv_def split: option.splits)

lemma connectToCluster_nextId: "nextId (connectToCluster st) \<le> Suc (nextId st)"
  by (simp add: connectToCluster_def console_write_def Let_def)

lemma fire_held:
  assumes "timer_inv st" and "t \<in> set (timers st)"
  shows "fire t st = connectToCluster (st\<lparr>timers := [], clusterConnectionTimeout := None\<rparr>)"
proof -
  from assms have "timers st = [t]"
    by (auto simp add: timer_inv_def split: option.splits)
  with assms(2) show ?thesis
    by (simp add: fire_def timeout_callback_def)
qed

section \<open>C1: chunk boundaries\<close>

text \<open>
  Claim C1 says that every partition of a well-formed stream into chunks yields the
  messages of the whole stream. The loop skips an empty first piece without closing the
  frame that the buffer holds: the stream of two frames, fed whole, emits both messages;
  cut between the first payload and its delimiter, it emits none, and the codec tries to
  decode the two payloads as one text.
\<close>

theorem chunk_boundary_before_delimiter_loses_frames:
  \<open>emitted (snd (feed JSON_parse (spoke_callback quiet) init
      [''{"op":"a","data":1}#{"op":"b","data":2}#''])) =
     [(Some (JStr ''a''), Some (JNum 1 0)), (Some (JStr ''b''), Some (JNum 2 0))] \<and>
   emitted (snd (feed JSON_parse (spoke_callback quiet) init
      [''{"op":"a","data":1}'', ''#{"op":"b","data":2}#''])) = [] \<and>
   console (snd (feed JSON_parse (spoke_callback quiet) init
      [''{"op":"a","data":1}'', ''#{"op":"b","data":2}#''])) =
     [ParseFailed ''{"op":"a","data":1}{"op":"b","data":2}''] \<and>
   ''{"op":"a","data":1}'' @ ''#{"op":"b","data":2}#'' = ''{"op":"a","data":1}#{"op":"b","data":2}#''\<close>
  by code_simp

text \<open>
  For chunks of text, the cut in front of a delimiter is the harmful one. When no chunk
  after the first begins with the delimiter, feeding the chunks one after the other gives
  the result of feeding their concatenation as one chunk: the same calls of the callback
  in the same order, the same buffer, the same console, from every state and for every
  parser and callback. (The lemma is about the texts that \<^verbatim>\<open>data.toString()\<close> yields; a cut
  inside the bytes of one character is outside it.)
\<close>

lemma feed_concat:
  assumes "\<forall>c\<in>set cs. c = [] \<or> hd c \<noteq> CHR ''#''"
  shows "feed parse cb st (c0 # cs) = parseSocketData parse cb st (concat (c0 # cs))"
  using assms
proof (induction cs arbitrary: c0 st)
  case Nil
  show ?case by (simp only: feed_one concat.simps append_Nil2)
next
  case (Cons c cs)
  let ?st' = "snd (parseSocketData parse cb st c0)"
  from Cons.prems have rest: "\<forall>x\<in>set cs. x = [] \<or> hd x \<noteq> CHR ''#''" by simp
  from Cons.prems have "concat (c # cs) = [] \<or> hd (concat (c # cs)) \<noteq> CHR ''#''"
    by (rule concat_no_delim_first)
  from two_chunks [OF this, of parse cb st c0]
  have "parseSocketData parse cb st (c0 @ concat (c # cs)) =
      feed parse cb st [c0, concat (c # cs)]" by (rule sym)
  also have "\<dots> = parseSocketData parse cb ?st' (concat (c # cs))"
    by (simp only: feed_two feed_one)
  also have "\<dots> = feed parse cb ?st' (c # cs)"
    using Cons.IH [OF rest, of ?st' c] by (rule sym)
  also have "\<dots> = feed parse cb st (c0 # c # cs)"
    by (simp only: feed_Cons [of parse cb st c0])
  finally show ?case by (simp only: concat.simps)
qed

section \<open>C2: the buffer is flushed after every frame\<close>

text \<open>
  Claim C2. A piece of a chunk that is processed as a frame (it is not empty, and it is not
  the last piece of a chunk that does not end with the delimiter) leaves the reassembly
  buffer empty and returns normally, whatever the parser and the callback do. When the
  parser rejects the candidate frame, the only other effect is one line on the console. A
  chunk that ends with the delimiter and holds some other character leaves the buffer
  empty. The chunk \<^verbatim>\<open>{bad#json}#\<close>, fed with an empty buffer, returns normally and changes
  nothing but the console, for every callback: no message is handed over, the buffer is
  empty. (An empty piece is skipped by the loop, it is not processed.)
\<close>

theorem buffer_flushed_after_every_frame:
  "(chunk \<noteq> [] \<and> \<not> (i = n - 1 \<and> incompleteData) \<longrightarrow>
      fst (segment parse cb incompleteData n i chunk st) = Normal \<and>
      pendingSocketData (snd (segment parse cb incompleteData n i chunk st)) = [])
   \<and> (chunk \<noteq> [] \<and> \<not> (i = n - 1 \<and> incompleteData) \<and>
        parse (pendingSocketData st @ chunk) = Inl err \<longrightarrow>
      segment parse cb incompleteData n i chunk st =
        (Normal, (console_write (ParseFailed (pendingSocketData st @ chunk)) st)
                   \<lparr>pendingSocketData := []\<rparr>))
   \<and> (stringData \<noteq> [] \<and> last stringData = CHR ''#'' \<and> (\<exists>c\<in>set stringData. c \<noteq> CHR ''#'') \<longrightarrow>
      fst (parseSocketData parse cb st stringData) = Normal \<and>
      pendingSocketData (snd (parseSocketData parse cb st stringData)) = [])
   \<and> (pendingSocketData st = [] \<longrightarrow>
      parseSocketData JSON_parse cb st ''{bad#json}#'' =
        (Normal, console_write (ParseFailed ''json}'') (console_write (ParseFailed ''{bad'') st)))"
  using segment_Normal [of parse cb incompleteData n i chunk st]
    segment_flushes [of chunk i n incompleteData parse cb st]
    segment_parse_failure [of chunk i n incompleteData parse st err cb]
    parseSocketData_Normal [of parse cb st stringData]
    parseSocketData_complete_buffer [of stringData parse cb st]
    bad_frame [of st cb]
  by blast

theorem buffer_flushed_after_every_frame_witness:
  "''{bad'' \<noteq> [] \<and> \<not> ((0::nat) = 3 - 1 \<and> False) \<and>
   JSON_parse (pendingSocketData init @ ''{bad'') = Inl SyntaxError \<and>
   segment JSON_parse (spoke_callback (\<lambda>ev payload. Normal)) False 3 0 ''{bad'' init =
     (Normal, (console_write (ParseFailed (pendingSocketData init @ ''{bad'')) init)
                \<lparr>pendingSocketData := []\<rparr>) \<and>
   ''{bad#json}#'' \<noteq> [] \<and> last ''{bad#json}#'' = CHR ''#'' \<and>
   (\<exists>c\<in>set ''{bad#json}#''. c \<noteq> CHR ''#'') \<and>
   pendingSocketData init = [] \<and>
   pendingSocketData (snd (parseSocketData JSON_parse (spoke_callback (\<lambda>ev payload. Normal)) init ''{bad#json}#'')) = [] \<and>
   emitted (snd (parseSocketData JSON_parse (spoke_callback (\<lambda>ev payload. Normal)) init ''{bad#json}#'')) = []"
proof -
  have h1: "''{bad'' \<noteq> [] \<and> \<not> ((0::nat) = 3 - 1 \<and> False)" by simp
  have h2: "JSON_parse (pendingSocketData init @ ''{bad'') = Inl SyntaxError"
    by (simp add: init_def bad_json_1)
  have h3: "''{bad#json}#'' \<noteq> [] \<and> last ''{bad#json}#'' = CHR ''#'' \<and>
    (\<exists>c\<in>set ''{bad#json}#''. c \<noteq> CHR ''#'')" by simp
  have h4: "pendingSocketData init = []" by (simp add: init_def)
  note t = buffer_flushed_after_every_frame [of "''{bad''" 0 3 False JSON_parse
      "spoke_callback (\<lambda>ev payload. Normal)" init SyntaxError "''{bad#json}#''"]
  from t h1 h2 have c2: "segment JSON_parse (spoke_callback (\<lambda>ev payload. Normal)) False 3 0 ''{bad'' init =
     (Normal, (console_write (ParseFailed (pendingSocketData init @ ''{bad'')) init)
                \<lparr>pendingSocketData := []\<rparr>)" by blast
  from t h3 have c3: "pendingSocketData (snd (parseSocketData JSON_parse (spoke_callback (\<lambda>ev payload. Normal)) init ''{bad#json}#'')) = []"
    by blast
  from t h4 have c4: "parseSocketData JSON_parse (spoke_callback (\<lambda>ev payload. Normal)) init ''{bad#json}#'' =
        (Normal, console_write (ParseFailed ''json}'') (console_write (ParseFailed ''{bad'') init))"
    by blast
  have c5: "emitted (snd (parseSocketData JSON_parse (spoke_callback (\<lambda>ev payload. Normal)) init ''{bad#json}#'')) = []"
    unfolding c4 by (simp add: console_write_def init_def)
  from h1 h2 h3 h4 c2 c3 c5 show ?thesis by blast
qed

section \<open>C3: one buffer for all connections of the hub\<close>

text \<open>
  Claim C3 says that every connection has a reassembly buffer of its own. The service
  keeps a single field \<^verbatim>\<open>this.pendingSocketData\<close>. On the hub, with two connections open,
  a partial frame of connection 1 stays in the buffer and is glued in front of the next
  frame of connection 2, whose message is lost (alone it is emitted); and accepting
  connection 2 empties the buffer that holds the partial frame of connection 1, whose
  message is lost as well (without the second connection it is emitted).
\<close>

theorem hub_connections_share_one_buffer:
  \<open>pendingSocketData (snd (hub_run JSON_parse quiet init
      [Connection 1, Connection 2, Data 1 ''{"op":"a",''])) = ''{"op":"a",'' \<and>
   emitted (snd (hub_run JSON_parse quiet init
      [Connection 1, Connection 2, Data 1 ''{"op":"a",'', Data 2 ''{"op":"b","data":2}#''])) = [] \<and>
   console (snd (hub_run JSON_parse quiet init
      [Connection 1, Connection 2, Data 1 ''{"op":"a",'', Data 2 ''{"op":"b","data":2}#''])) =
     [Msg ''[socket/cluster] collector connected successfully'',
      Msg ''[socket/cluster] collector connected successfully'',
      ParseFailed ''{"op":"a",{"op":"b","data":2}''] \<and>
   emitted (snd (hub_run JSON_parse quiet init
      [Connection 1, Connection 2, Data 2 ''{"op":"b","data":2}#''])) =
     [(Some (JStr ''b''), Some (JNum 2 0))] \<and>
   pendingSocketData (snd (hub_run JSON_parse quiet init
      [Connection 1, Data 1 ''{"op":"a",'', Connection 2])) = [] \<and>
   emitted (snd (hub_run JSON_parse quiet init
      [Connection 1, Data 1 ''{"op":"a",'', Connection 2, Data 1 ''"data":1}#''])) = [] \<and>
   emitted (snd (hub_run JSON_parse quiet init
      [Connection 1, Data 1 ''{"op":"a",'', Data 1 ''"data":1}#''])) =
     [(Some (JStr ''a''), Some (JNum 1 0))]\<close>
  by code_simp

section \<open>C4: the handshake on the hub\<close>




section \<open>C5: when the registry changes\<close>




section \<open>C6: getNodeByMarket\<close>

text \<open>
  Claim C6 speaks of every registry state. The welcome branch of the hub registers a
  connection once \<^verbatim>\<open>indexes\<close> is an array and stores \<^verbatim>\<open>markets\<close> as it comes. With a first
  connection registered without \<^verbatim>\<open>markets\<close> and a second one that owns the market
  \<^verbatim>\<open>A:b\<close>, the lookup of \<^verbatim>\<open>A:b\<close> throws a \<^verbatim>\<open>TypeError\<close> at the first record and never
  reaches the second. With \<^verbatim>\<open>markets\<close> the string \<^verbatim>\<open>XA:bY\<close>, the lookup of \<^verbatim>\<open>A:b\<close> returns
  that connection, whose markets do not contain the identifier: on a string
  \<^verbatim>\<open>indexOf\<close> searches a substring.
\<close>

theorem lookup_on_unchecked_record_counterexample:
  \<open>clusteredCollectors (snd (hub_run JSON_parse quiet init
      [Connection 1, Data 1 ''{"op":"welcome","data":{"indexes":[]}}#'',
       Connection 2, Data 2 ''{"op":"welcome","data":{"markets":["A:b"],"indexes":[]}}#''])) = [1, 2] \<and>
   markets (sockets (snd (hub_run JSON_parse quiet init
      [Connection 1, Data 1 ''{"op":"welcome","data":{"indexes":[]}}#'',
       Connection 2, Data 2 ''{"op":"welcome","data":{"markets":["A:b"],"indexes":[]}}#''])) 2) =
     Some (JArr [JStr ''A:b'']) \<and>
   getNodeByMarket (snd (hub_run JSON_parse quiet init
      [Connection 1, Data 1 ''{"op":"welcome","data":{"indexes":[]}}#'',
       Connection 2, Data 2 ''{"op":"welcome","data":{"markets":["A:b"],"indexes":[]}}#''])) ''A:b'' =
     Inl TypeError \<and>
   clusteredCollectors (snd (hub_run JSON_parse quiet init
      [Connection 1, Data 1 ''{"op":"welcome","data":{"markets":"XA:bY","indexes":[]}}#''])) = [1] \<and>
   getNodeByMarket (snd (hub_run JSON_parse quiet init
      [Connection 1, Data 1 ''{"op":"welcome","data":{"markets":"XA:bY","indexes":[]}}#''])) ''A:b'' =
     Inr (Some 1)\<close>
  by code_simp

text \<open>
  Claim C6, amended. The namespace separator is \<^verbatim>\<open>:\<close>. Let every registered connection
  carry an array in the field that the lookup reads: \<^verbatim>\<open>markets\<close> when the identifier
  contains the separator, \<^verbatim>\<open>indexes\<close> when it does not, with \<open>owned c\<close> the elements of that
  array. Then \<^verbatim>\<open>getNodeByMarket\<close> returns the first connection in registry order whose
  array contains the identifier, and \<^verbatim>\<open>undefined\<close> when there is none. In another
  registry state, let the records in front of some record all carry arrays without the
  identifier: when the field of that record is neither an array nor a string, the lookup
  throws a \<^verbatim>\<open>TypeError\<close>; when it is a string of which the identifier is a part, the
  lookup returns that record.
\<close>

theorem getNodeByMarket_first_match:
  "((\<forall>c\<in>set (clusteredCollectors st).
       (if CHR '':'' \<in> set identifier then markets (sockets st c) else indexes (sockets st c)) =
         Some (JArr (owned c))) \<longrightarrow>
     getNodeByMarket st identifier =
       Inr (find (\<lambda>c. JStr identifier \<in> set (owned c)) (clusteredCollectors st)))
   \<and> (clusteredCollectors st = pre @ c # post \<and>
      (\<forall>x\<in>set pre.
         (if CHR '':'' \<in> set identifier then markets (sockets st x) else indexes (sockets st x)) =
           Some (JArr (owned x)) \<and> JStr identifier \<notin> set (owned x)) \<and>
      (\<forall>xs. (if CHR '':'' \<in> set identifier then markets (sockets st c) else indexes (sockets st c))
         \<noteq> Some (JArr xs)) \<and>
      (\<forall>s. (if CHR '':'' \<in> set identifier then markets (sockets st c) else indexes (sockets st c))
         \<noteq> Some (JStr s)) \<longrightarrow>
     getNodeByMarket st identifier = Inl TypeError)
   \<and> (clusteredCollectors st = pre @ c # post \<and>
      (\<forall>x\<in>set pre.
         (if CHR '':'' \<in> set identifier then markets (sockets st x) else indexes (sockets st x)) =
           Some (JArr (owned x)) \<and> JStr identifier \<notin> set (owned x)) \<and>
      (if CHR '':'' \<in> set identifier then markets (sockets st c) else indexes (sockets st c)) =
        Some (JStr s) \<and> occurs_in identifier s \<longrightarrow>
     getNodeByMarket st identifier = Inr (Some c))"
proof -
  let ?isIndex = "CHR '':'' \<notin> set identifier"
  let ?fld = "\<lambda>x. if ?isIndex then indexes (sockets st x) else markets (sockets st x)"
  have flip: "(if CHR '':'' \<in> set identifier then markets (sockets st x) else indexes (sockets st x))
      = ?fld x" for x by simp
  have 1: "getNodeByMarket st identifier =
       Inr (find (\<lambda>c. JStr identifier \<in> set (owned c)) (clusteredCollectors st))"
    if "\<forall>c\<in>set (clusteredCollectors st). ?fld c = Some (JArr (owned c))"
    using scan_find [OF that] by (simp add: getNodeByMarket_def Let_def)
  have pre: "getNodeByMarket st identifier = scan (sockets st) ?isIndex identifier (c # post)"
    if "clusteredCollectors st = pre @ c # post"
      "\<forall>x\<in>set pre. ?fld x = Some (JArr (owned x)) \<and> JStr identifier \<notin> set (owned x)"
    using scan_prefix_arrays [OF that(2), of "c # post"] that(1)
    by (simp add: getNodeByMarket_def Let_def)
  have 2: "getNodeByMarket st identifier = Inl TypeError"
    if "clusteredCollectors st = pre @ c # post"
      "\<forall>x\<in>set pre. ?fld x = Some (JArr (owned x)) \<and> JStr identifier \<notin> set (owned x)"
      "\<forall>xs. ?fld c \<noteq> Some (JArr xs)" "\<forall>s. ?fld c \<noteq> Some (JStr s)"
  proof -
    from that(3,4) have "contains (?fld c) identifier = Inl TypeError"
      by (simp only: contains_TypeError) simp
    with pre [OF that(1,2)] show ?thesis by simp
  qed
  have 3: "getNodeByMarket st identifier = Inr (Some c)"
    if "clusteredCollectors st = pre @ c # post"
      "\<forall>x\<in>set pre. ?fld x = Some (JArr (owned x)) \<and> JStr identifier \<notin> set (owned x)"
      "?fld c = Some (JStr s)" "occurs_in identifier s"
  proof -
    from that(3,4) have "contains (?fld c) identifier = Inr True" by simp
    with pre [OF that(1,2)] show ?thesis by simp
  qed
  from 1 2 3 show ?thesis unfolding flip by blast
qed

theorem getNodeByMarket_first_match_witness:
  \<open>(let S = snd (hub_run JSON_parse quiet init
         [Connection 1, Connection 2,
          Data 2 ''{"op":"welcome","data":{"markets":["BINANCE:btcusdt"],"indexes":["BTCUSD"]}}#'',
          Data 1 ''{"op":"welcome","data":{"markets":["BINANCE:btcusdt","KRAKEN:XBT/USD"],"indexes":["BTCUSD"]}}#'']);
        U = snd (hub_run JSON_parse quiet init
         [Connection 1, Data 1 ''{"op":"welcome","data":{"markets":["BTC-USD"],"indexes":[]}}#'']);
        T = snd (hub_run JSON_parse quiet init
         [Connection 1, Data 1 ''{"op":"welcome","data":{"markets":["C:d"],"indexes":[]}}#'',
          Connection 2, Data 2 ''{"op":"welcome","data":{"indexes":[]}}#'',
          Connection 3, Data 3 ''{"op":"welcome","data":{"markets":["A:b"],"indexes":[]}}#'']);
        V = snd (hub_run JSON_parse quiet init
         [Connection 1, Data 1 ''{"op":"welcome","data":{"markets":["C:d"],"indexes":[]}}#'',
          Connection 2, Data 2 ''{"op":"welcome","data":{"markets":"XA:bY","indexes":[]}}#''])
    in clusteredCollectors S = [2, 1] \<and>
       (\<forall>c\<in>set (clusteredCollectors S).
          (if CHR '':'' \<in> set ''KRAKEN:XBT/USD'' then markets (sockets S c) else indexes (sockets S c)) =
            Some (JArr (if c = 1 then [JStr ''BINANCE:btcusdt'', JStr ''KRAKEN:XBT/USD'']
                        else [JStr ''BINANCE:btcusdt'']))) \<and>
       getNodeByMarket S ''KRAKEN:XBT/USD'' = Inr (Some 1) \<and>
       (\<forall>c\<in>set (clusteredCollectors S).
          (if CHR '':'' \<in> set ''BTCUSD'' then markets (sockets S c) else indexes (sockets S c)) =
            Some (JArr [JStr ''BTCUSD''])) \<and>
       getNodeByMarket S ''BTCUSD'' = Inr (Some 2) \<and>
       (\<forall>c\<in>set (clusteredCollectors S).
          (if CHR '':'' \<in> set ''ETHUSD'' then markets (sockets S c) else indexes (sockets S c)) =
            Some (JArr [JStr ''BTCUSD''])) \<and>
       getNodeByMarket S ''ETHUSD'' = Inr None \<and>
       clusteredCollectors U = [1] \<and>
       markets (sockets U 1) = Some (JArr [JStr ''BTC-USD'']) \<and>
       (\<forall>c\<in>set (clusteredCollectors U).
          (if CHR '':'' \<in> set ''BTC-USD'' then markets (sockets U c) else indexes (sockets U c)) =
            Some (JArr [])) \<and>
       getNodeByMarket U ''BTC-USD'' = Inr None \<and>
       clusteredCollectors T = [1] @ 2 # [3] \<and>
       (\<forall>x\<in>set [1].
          (if CHR '':'' \<in> set ''A:b'' then markets (sockets T x) else indexes (sockets T x)) =
            Some (JArr [JStr ''C:d'']) \<and> JStr ''A:b'' \<notin> set [JStr ''C:d'']) \<and>
       (\<forall>xs. (if CHR '':'' \<in> set ''A:b'' then markets (sockets T 2) else indexes (sockets T 2))
          \<noteq> Some (JArr xs)) \<and>
       (\<forall>s. (if CHR '':'' \<in> set ''A:b'' then markets (sockets T 2) else indexes (sockets T 2))
          \<noteq> Some (JStr s)) \<and>
       markets (sockets T 3) = Some (JArr [JStr ''A:b'']) \<and>
       getNodeByMarket T ''A:b'' = Inl TypeError \<and>
       clusteredCollectors V = [1] @ 2 # [] \<and>
       (\<forall>x\<in>set [1].
          (if CHR '':'' \<in> set ''A:b'' then markets (sockets V x) else indexes (sockets V x)) =
            Some (JArr [JStr ''C:d'']) \<and> JStr ''A:b'' \<notin> set [JStr ''C:d'']) \<and>
       (if CHR '':'' \<in> set ''A:b'' then markets (sockets V 2) else indexes (sockets V 2)) =
         Some (JStr ''XA:bY'') \<and>
       occurs_in ''A:b'' ''XA:bY'' \<and>
       getNodeByMarket V ''A:b'' = Inr (Some 2))\<close>
proof -
  define S where \<open>S = snd (hub_run JSON_parse quiet init
         [Connection 1, Connection 2,
          Data 2 ''{"op":"welcome","data":{"markets":["BINANCE:btcusdt"],"indexes":["BTCUSD"]}}#'',
          Data 1 ''{"op":"welcome","data":{"markets":["BINANCE:btcusdt","KRAKEN:XBT/USD"],"indexes":["BTCUSD"]}}#''])\<close>
  define U where \<open>U = snd (hub_run JSON_parse quiet init
         [Connection 1, Data 1 ''{"op":"welcome","data":{"markets":["BTC-USD"],"indexes":[]}}#''])\<close>
  define T where \<open>T = snd (hub_run JSON_parse quiet init
         [Connection 1, Data 1 ''{"op":"welcome","data":{"markets":["C:d"],"indexes":[]}}#'',
          Connection 2, Data 2 ''{"op":"welcome","data":{"indexes":[]}}#'',
          Connection 3, Data 3 ''{"op":"welcome","data":{"markets":["A:b"],"indexes":[]}}#''])\<close>
  define V where \<open>V = snd (hub_run JSON_parse quiet init
         [Connection 1, Data 1 ''{"op":"welcome","data":{"markets":["C:d"],"indexes":[]}}#'',
          Connection 2, Data 2 ''{"op":"welcome","data":{"markets":"XA:bY","indexes":[]}}#''])\<close>
  let ?M = "\<lambda>c::nat. if c = 1 then [JStr ''BINANCE:btcusdt'', JStr ''KRAKEN:XBT/USD'']
                        else [JStr ''BINANCE:btcusdt'']"
  let ?I = "\<lambda>c::nat. [JStr ''BTCUSD'']"
  let ?E = "\<lambda>c::nat. [] :: json list"
  let ?C = "\<lambda>c::nat. [JStr ''C:d'']"
  have r: "clusteredCollectors S = [2, 1]" unfolding S_def by code_simp
  have m1: "markets (sockets S 1) = Some (JArr [JStr ''BINANCE:btcusdt'', JStr ''KRAKEN:XBT/USD''])"
    unfolding S_def by code_simp
  have m2: "markets (sockets S 2) = Some (JArr [JStr ''BINANCE:btcusdt''])"
    unfolding S_def by code_simp
  have i1: "indexes (sockets S 1) = Some (JArr [JStr ''BTCUSD''])" unfolding S_def by code_simp
  have i2: "indexes (sockets S 2) = Some (JArr [JStr ''BTCUSD''])" unfolding S_def by code_simp
  note f = m1 m2 i1 i2 m1 [unfolded One_nat_def] i1 [unfolded One_nat_def]
  have h1: "\<forall>c\<in>set (clusteredCollectors S).
          (if CHR '':'' \<in> set ''KRAKEN:XBT/USD'' then markets (sockets S c) else indexes (sockets S c)) =
            Some (JArr (?M c))"
    by (simp add: r f)
  have h2: "\<forall>c\<in>set (clusteredCollectors S).
          (if CHR '':'' \<in> set ''BTCUSD'' then markets (sockets S c) else indexes (sockets S c)) =
            Some (JArr (?I c))"
    by (simp add: r f)
  have h3: "\<forall>c\<in>set (clusteredCollectors S).
          (if CHR '':'' \<in> set ''ETHUSD'' then markets (sockets S c) else indexes (sockets S c)) =
            Some (JArr (?I c))"
    by (simp add: r f)
  have c1: "getNodeByMarket S ''KRAKEN:XBT/USD'' = Inr (Some 1)"
    using getNodeByMarket_first_match [of S "''KRAKEN:XBT/USD''" ?M] h1 by (simp add: r)
  have c2: "getNodeByMarket S ''BTCUSD'' = Inr (Some 2)"
    using getNodeByMarket_first_match [of S "''BTCUSD''" ?I] h2 by (simp add: r)
  have c3: "getNodeByMarket S ''ETHUSD'' = Inr None"
    using getNodeByMarket_first_match [of S "''ETHUSD''" ?I] h3 by (simp add: r)
  have ru: "clusteredCollectors U = [1]" unfolding U_def by code_simp
  have mu: "markets (sockets U 1) = Some (JArr [JStr ''BTC-USD''])" unfolding U_def by code_simp
  have iu: "indexes (sockets U 1) = Some (JArr [])" unfolding U_def by code_simp
  have h4: "\<forall>c\<in>set (clusteredCollectors U).
          (if CHR '':'' \<in> set ''BTC-USD'' then markets (sockets U c) else indexes (sockets U c)) =
            Some (JArr (?E c))"
    by (simp add: ru iu iu [unfolded One_nat_def])
  have c4: "getNodeByMarket U ''BTC-USD'' = Inr None"
    using getNodeByMarket_first_match [of U "''BTC-USD''" ?E] h4 by (simp add: ru)
  have rt: "clusteredCollectors T = [1] @ 2 # [3]" unfolding T_def by code_simp
  have t1: "markets (sockets T 1) = Some (JArr [JStr ''C:d''])" unfolding T_def by code_simp
  have t2: "markets (sockets T 2) = None" unfolding T_def by code_simp
  have t3: "markets (sockets T 3) = Some (JArr [JStr ''A:b''])" unfolding T_def by code_simp
  have h5: "\<forall>x\<in>set [1].
          (if CHR '':'' \<in> set ''A:b'' then markets (sockets T x) else indexes (sockets T x)) =
            Some (JArr (?C x)) \<and> JStr ''A:b'' \<notin> set (?C x)"
    by (simp add: t1 t1 [unfolded One_nat_def])
  have h6: "\<forall>xs. (if CHR '':'' \<in> set ''A:b'' then markets (sockets T 2) else indexes (sockets T 2))
          \<noteq> Some (JArr xs)"
    by (simp add: t2)
  have h7: "\<forall>s. (if CHR '':'' \<in> set ''A:b'' then markets (sockets T 2) else indexes (sockets T 2))
          \<noteq> Some (JStr s)"
    by (simp add: t2)
  have c5: "getNodeByMarket T ''A:b'' = Inl TypeError"
    using getNodeByMarket_first_match [of T "''A:b''" ?C "[1]" 2 "[3]"] rt h5 h6 h7 by blast
  have rv: "clusteredCollectors V = [1] @ 2 # []" unfolding V_def by code_simp
  have v1: "markets (sockets V 1) = Some (JArr [JStr ''C:d''])" unfolding V_def by code_simp
  have v2: "markets (sockets V 2) = Some (JStr ''XA:bY'')" unfolding V_def by code_simp
  have h8: "\<forall>x\<in>set [1].
          (if CHR '':'' \<in> set ''A:b'' then markets (sockets V x) else indexes (sockets V x)) =
            Some (JArr (?C x)) \<and> JStr ''A:b'' \<notin> set (?C x)"
    by (simp add: v1 v1 [unfolded One_nat_def])
  have h9: "(if CHR '':'' \<in> set ''A:b'' then markets (sockets V 2) else indexes (sockets V 2)) =
         Some (JStr ''XA:bY'')"
    by (simp add: v2)
  have h10: "occurs_in ''A:b'' ''XA:bY''" by simp
  have c6: "getNodeByMarket V ''A:b'' = Inr (Some 2)"
    using getNodeByMarket_first_match [of V "''A:b''" ?C "[1]" 2 "[]" "''XA:bY''"] rv h8 h9 h10 by blast
  from r h1 c1 h2 c2 h3 c3 ru mu h4 c4 rt h5 h6 h7 t3 c5 rv h8 h9 h10 c6
  have "clusteredCollectors S = [2, 1] \<and>
       (\<forall>c\<in>set (clusteredCollectors S).
          (if CHR '':'' \<in> set ''KRAKEN:XBT/USD'' then markets (sockets S c) else indexes (sockets S c)) =
            Some (JArr (if c = 1 then [JStr ''BINANCE:btcusdt'', JStr ''KRAKEN:XBT/USD'']
                        else [JStr ''BINANCE:btcusdt'']))) \<and>
       getNodeByMarket S ''KRAKEN:XBT/USD'' = Inr (Some 1) \<and>
       (\<forall>c\<in>set (clusteredCollectors S).
          (if CHR '':'' \<in> set ''BTCUSD'' then markets (sockets S c) else indexes (sockets S c)) =
            Some (JArr [JStr ''BTCUSD''])) \<and>
       getNodeByMarket S ''BTCUSD'' = Inr (Some 2) \<and>
       (\<forall>c\<in>set (clusteredCollectors S).
          (if CHR '':'' \<in> set ''ETHUSD'' then markets (sockets S c) else indexes (sockets S c)) =
            Some (JArr [JStr ''BTCUSD''])) \<and>
       getNodeByMarket S ''ETHUSD'' = Inr None \<and>
       clusteredCollectors U = [1] \<and>
       markets (sockets U 1) = Some (JArr [JStr ''BTC-USD'']) \<and>
       (\<forall>c\<in>set (clusteredCollectors U).
          (if CHR '':'' \<in> set ''BTC-USD'' then markets (sockets U c) else indexes (sockets U c)) =
            Some (JArr [])) \<and>
       getNodeByMarket U ''BTC-USD'' = Inr None \<and>
       clusteredCollectors T = [1] @ 2 # [3] \<and>
       (\<forall>x\<in>set [1].
          (if CHR '':'' \<in> set ''A:b'' then markets (sockets T x) else indexes (sockets T x)) =
            Some (JArr [JStr ''C:d'']) \<and> JStr ''A:b'' \<notin> set [JStr ''C:d'']) \<and>
       (\<forall>xs. (if CHR '':'' \<in> set ''A:b'' then markets (sockets T 2) else indexes (sockets T 2))
          \<noteq> Some (JArr xs)) \<and>
       (\<forall>s. (if CHR '':'' \<in> set ''A:b'' then markets (sockets T 2) else indexes (sockets T 2))
          \<noteq> Some (JStr s)) \<and>
       markets (sockets T 3) = Some (JArr [JStr ''A:b'']) \<and>
       getNodeByMarket T ''A:b'' = Inl TypeError \<and>
       clusteredCollectors V = [1] @ 2 # [] \<and>
       (\<forall>x\<in>set [1].
          (if CHR '':'' \<in> set ''A:b'' then markets (sockets V x) else indexes (sockets V x)) =
            Some (JArr [JStr ''C:d'']) \<and> JStr ''A:b'' \<notin> set [JStr ''C:d'']) \<and>
       (if CHR '':'' \<in> set ''A:b'' then markets (sockets V 2) else indexes (sockets V 2)) =
         Some (JStr ''XA:bY'') \<and>
       occurs_in ''A:b'' ''XA:bY'' \<and>
       getNodeByMarket V ''A:b'' = Inr (Some 2)"
    by blast
  then show ?thesis unfolding Let_def S_def U_def T_def V_def .
qed

section \<open>C7: at most one reconnection timer\<close>

text \<open>
  Claim C7. In every state that the spoke reaches from its constructor, by any sequence
  of calls of \<^verbatim>\<open>connectToCluster\<close> and \<^verbatim>\<open>close\<close>, socket events and firings of timers, the
  event loop holds at most one timer. A close or an error event in such a state leaves
  exactly one timer, a new one: a timer that was pending has been cleared before the new
  one is set. A timer that the loop holds fires as one call of \<^verbatim>\<open>connectToCluster\<close>, in
  the state without that timer and with the field that named it cleared: it leaves no
  timer behind, and that one attempt opens at most one socket (none when a socket is
  already there). A timer that the loop does not hold does nothing.
\<close>

theorem at_most_one_reconnection_timer:
  "length (timers (snd (spoke_run parse subs pairs ids spoke_init es))) \<le> 1
   \<and> timers (spoke_close hadError (snd (spoke_run parse subs pairs ids spoke_init es))) =
       [nextId (snd (spoke_run parse subs pairs ids spoke_init es))]
   \<and> timers (spoke_error (snd (spoke_run parse subs pairs ids spoke_init es))) =
       [nextId (snd (spoke_run parse subs pairs ids spoke_init es))]
   \<and> (t \<in> set (timers (snd (spoke_run parse subs pairs ids spoke_init es))) \<longrightarrow>
        timers (fire t (snd (spoke_run parse subs pairs ids spoke_init es))) = [] \<and>
        clusterConnectionTimeout (fire t (snd (spoke_run parse subs pairs ids spoke_init es))) = None)
   \<and> (t \<notin> set (timers (snd (spoke_run parse subs pairs ids spoke_init es))) \<longrightarrow>
        fire t (snd (spoke_run parse subs pairs ids spoke_init es)) =
          snd (spoke_run parse subs pairs ids spoke_init es))
   \<and> (t \<in> set (timers (snd (spoke_run parse subs pairs ids spoke_init es))) \<longrightarrow>
        fire t (snd (spoke_run parse subs pairs ids spoke_init es)) =
          connectToCluster ((snd (spoke_run parse subs pairs ids spoke_init es))
            \<lparr>timers := [], clusterConnectionTimeout := None\<rparr>))
   \<and> nextId (fire t (snd (spoke_run parse subs pairs ids spoke_init es))) \<le>
       Suc (nextId (snd (spoke_run parse subs pairs ids spoke_init es)))
   \<and> nextId (connectToCluster st) \<le> Suc (nextId st)
   \<and> (clusterSocket st \<noteq> None \<longrightarrow>
        clusterSocket (connectToCluster st) = clusterSocket st \<and>
        sockets (connectToCluster st) = sockets st \<and>
        nextId (connectToCluster st) = nextId st)"
proof -
  let ?st = "snd (spoke_run parse subs pairs ids spoke_init es)"
  have i: "timer_inv ?st" by (rule spoke_run_inv [OF spoke_init_inv])
  have c: "timer_inv (console_write (Msg ''[socket/collector] cluster closed'') ?st)"
    using i by (simp add: console_write_inv)
  have 1: "length (timers ?st) \<le> 1" by (rule timer_inv_length [OF i])
  have 2: "timers (spoke_close hadError ?st) = [nextId ?st]"
    unfolding spoke_close_def using reconnectCluster_timers(1) [OF c]
    by (simp add: console_write_def)
  have 3: "timers (spoke_error ?st) = [nextId ?st]"
    unfolding spoke_error_def using reconnectCluster_timers(1) [OF i] by simp
  have 4: "timers (fire t ?st) = [] \<and> clusterConnectionTimeout (fire t ?st) = None"
    if "t \<in> set (timers ?st)"
    using fire_timers [OF i that] by simp
  have 5: "fire t ?st = ?st" if "t \<notin> set (timers ?st)"
    using that by (simp add: fire_def)
  have 6: "fire t ?st = connectToCluster (?st\<lparr>timers := [], clusterConnectionTimeout := None\<rparr>)"
    if "t \<in> set (timers ?st)"
    by (rule fire_held [OF i that])
  have 7: "nextId (fire t ?st) \<le> Suc (nextId ?st)"
  proof (cases "t \<in> set (timers ?st)")
    case True
    from 6 [OF True]
      connectToCluster_nextId [of "?st\<lparr>timers := [], clusterConnectionTimeout := None\<rparr>"]
    show ?thesis by simp
  next
    case False
    with 5 show ?thesis by simp
  qed
  have 8: "clusterSocket (connectToCluster st) = clusterSocket st \<and>
        sockets (connectToCluster st) = sockets st \<and>
        nextId (connectToCluster st) = nextId st" if "clusterSocket st \<noteq> None"
    using that by (simp add: connectToCluster_def console_write_def)
  from 1 2 3 4 5 6 7 8 connectToCluster_nextId [of st] show ?thesis by blast
qed

theorem at_most_one_reconnection_timer_witness:
  "timers (snd (spoke_run JSON_parse quiet [] [] spoke_init [OnError])) = [1] \<and>
   timers (snd (spoke_run JSON_parse quiet [] [] spoke_init [OnError, OnClose True])) = [2] \<and>
   timers (spoke_close True (snd (spoke_run JSON_parse quiet [] [] spoke_init [OnError]))) = [2] \<and>
   2 \<in> set (timers (snd (spoke_run JSON_parse quiet [] [] spoke_init [OnError, OnClose True]))) \<and>
   timers (fire 2 (snd (spoke_run JSON_parse quiet [] [] spoke_init [OnError, OnClose True]))) = [] \<and>
   1 \<notin> set (timers (snd (spoke_run JSON_parse quiet [] [] spoke_init [OnError, OnClose True]))) \<and>
   fire 1 (snd (spoke_run JSON_parse quiet [] [] spoke_init [OnError, OnClose True])) =
     snd (spoke_run JSON_parse quiet [] [] spoke_init [OnError, OnClose True]) \<and>
   fire 2 (snd (spoke_run JSON_parse quiet [] [] spoke_init [OnError, OnClose True])) =
     connectToCluster ((snd (spoke_run JSON_parse quiet [] [] spoke_init [OnError, OnClose True]))
       \<lparr>timers := [], clusterConnectionTimeout := None\<rparr>) \<and>
   nextId (snd (spoke_run JSON_parse quiet [] [] spoke_init [OnError, OnClose True])) = 3 \<and>
   nextId (fire 2 (snd (spoke_run JSON_parse quiet [] [] spoke_init [OnError, OnClose True]))) = 4 \<and>
   clusterSocket (fire 2 (snd (spoke_run JSON_parse quiet [] [] spoke_init [OnError, OnClose True]))) = Some 3 \<and>
   clusterSocket spoke_init \<noteq> None \<and>
   nextId (connectToCluster spoke_init) = nextId spoke_init"
proof -
  define S1 where "S1 = snd (spoke_run JSON_parse quiet [] [] spoke_init [OnError])"
  define S2 where "S2 = snd (spoke_run JSON_parse quiet [] [] spoke_init [OnError, OnClose True])"
  have t1: "timers S1 = [1]" unfolding S1_def by code_simp
  have t2: "timers S2 = [2]" unfolding S2_def by code_simp
  have h1: "2 \<in> set (timers S2)" and h2: "1 \<notin> set (timers S2)" by (simp_all add: t2)
  have n1: "nextId S1 = 2" unfolding S1_def by code_simp
  have n2: "nextId S2 = 3" unfolding S2_def by code_simp
  have "timers (spoke_close True S1) = [nextId S1]"
    using at_most_one_reconnection_timer [of JSON_parse quiet "[]" "[]" "[OnError]" True 0]
    unfolding S1_def by blast
  with n1 have c1: "timers (spoke_close True S1) = [2]" by simp
  note th = at_most_one_reconnection_timer [of JSON_parse quiet "[]" "[]" "[OnError, OnClose True]" True 2 spoke_init,
      folded S2_def]
  have c2: "timers (fire 2 S2) = []" using th h1 by blast
  have c3: "fire 1 S2 = S2"
    using at_most_one_reconnection_timer [of JSON_parse quiet "[]" "[]" "[OnError, OnClose True]" True 1] h2
    unfolding S2_def by blast
  have c4: "fire 2 S2 = connectToCluster (S2\<lparr>timers := [], clusterConnectionTimeout := None\<rparr>)"
    using th h1 by blast
  have c5: "nextId (fire 2 S2) = 4" unfolding S2_def by code_simp
  have c6: "clusterSocket (fire 2 S2) = Some 3" unfolding S2_def by code_simp
  have h3: "clusterSocket spoke_init \<noteq> None" by code_simp
  have c7: "nextId (connectToCluster spoke_init) = nextId spoke_init" using th h3 by blast
  from t1 t2 c1 h1 c2 h2 c3 c4 n2 c5 c6 h3 c7
  have "timers S1 = [1] \<and> timers S2 = [2] \<and> timers (spoke_close True S1) = [2] \<and>
    2 \<in> set (timers S2) \<and> timers (fire 2 S2) = [] \<and> 1 \<notin> set (timers S2) \<and> fire 1 S2 = S2 \<and>
    fire 2 S2 = connectToCluster (S2\<lparr>timers := [], clusterConnectionTimeout := None\<rparr>) \<and>
    nextId S2 = 3 \<and> nextId (fire 2 S2) = 4 \<and> clusterSocket (fire 2 S2) = Some 3 \<and>
    clusterSocket spoke_init \<noteq> None \<and> nextId (connectToCluster spoke_init) = nextId spoke_init"
    by blast
  then show ?thesis unfolding S1_def S2_def .
qed

section \<open>C8: what cancels a reconnection timer\<close>

text \<open>
  Claim C8 says that no reconnection timer is pending after \<^verbatim>\<open>close()\<close>. The function does
  not touch timers: after an error has scheduled timer 1, a call of \<^verbatim>\<open>close()\<close> finds no
  socket and returns with timer 1 still pending; when it fires, the spoke connects again.
  On a live connection \<^verbatim>\<open>close()\<close> ends the socket, and the close event of that socket
  then schedules a timer that reconnects.
\<close>

theorem timer_survives_close_counterexample:
  "timers (snd (spoke_run JSON_parse quiet [] [] spoke_init [OnError, CallClose])) = [1] \<and>
   clusterConnectionTimeout (snd (spoke_run JSON_parse quiet [] [] spoke_init [OnError, CallClose])) = Some 1 \<and>
   clusterSocket (snd (spoke_run JSON_parse quiet [] [] spoke_init [OnError, CallClose])) = None \<and>
   clusterSocket (snd (spoke_run JSON_parse quiet [] [] spoke_init [OnError, CallClose, Timeout 1])) = Some 2 \<and>
   timers (snd (spoke_run JSON_parse quiet [] [] spoke_init [OnConnect, CallClose])) = [] \<and>
   timers (snd (spoke_run JSON_parse quiet [] [] spoke_init [OnConnect, CallClose, OnClose False])) = [1] \<and>
   clusterSocket (snd (spoke_run JSON_parse quiet [] [] spoke_init
      [OnConnect, CallClose, OnClose False, Timeout 1])) = Some 2"
  by code_simp

text \<open>
  Claim C8, amended. In every state that the spoke reaches, \<^verbatim>\<open>reconnectCluster\<close> cancels
  the timer that is pending: it is no longer held afterwards. \<^verbatim>\<open>close()\<close> and
  \<^verbatim>\<open>connectToCluster\<close> change neither the timers that the event loop holds nor the field
  that names the pending one; a timer that is pending when \<^verbatim>\<open>close()\<close> is called fires
  afterwards and calls \<^verbatim>\<open>connectToCluster\<close>.
\<close>

theorem timer_cancelled_only_by_reschedule:
  "(t \<in> set (timers (snd (spoke_run parse subs pairs ids spoke_init es))) \<longrightarrow>
      t \<notin> set (timers (reconnectCluster (snd (spoke_run parse subs pairs ids spoke_init es)))))
   \<and> timers (close st) = timers st
   \<and> clusterConnectionTimeout (close st) = clusterConnectionTimeout st
   \<and> timers (connectToCluster st) = timers st
   \<and> clusterConnectionTimeout (connectToCluster st) = clusterConnectionTimeout st
   \<and> (t \<in> set (timers st) \<longrightarrow>
        fire t (close st) = connectToCluster
          ((close st)\<lparr>timers := removeAll t (timers st), clusterConnectionTimeout := None\<rparr>))"
proof -
  let ?st = "snd (spoke_run parse subs pairs ids spoke_init es)"
  have i: "timer_inv ?st" by (rule spoke_run_inv [OF spoke_init_inv])
  have 1: "t \<notin> set (timers (reconnectCluster ?st))" if "t \<in> set (timers ?st)"
    using reconnectCluster_timers(1) [OF i] i that by (auto simp add: timer_inv_def)
  have 2: "fire t (close st) = connectToCluster
          ((close st)\<lparr>timers := removeAll t (timers st), clusterConnectionTimeout := None\<rparr>)"
    if "t \<in> set (timers st)"
    using that by (simp add: fire_def timeout_callback_def close_timers)
  from 1 2 close_timers(1,2) [of st] connectToCluster_timers(1,2) [of st]
  show ?thesis by blast
qed

theorem timer_cancelled_only_by_reschedule_witness:
  "1 \<in> set (timers (snd (spoke_run JSON_parse quiet [] [] spoke_init [OnError]))) \<and>
   1 \<notin> set (timers (reconnectCluster (snd (spoke_run JSON_parse quiet [] [] spoke_init [OnError])))) \<and>
   timers (close (snd (spoke_run JSON_parse quiet [] [] spoke_init [OnError]))) = [1] \<and>
   clusterSocket (fire 1 (close (snd (spoke_run JSON_parse quiet [] [] spoke_init [OnError])))) = Some 2"
proof -
  define S where "S = snd (spoke_run JSON_parse quiet [] [] spoke_init [OnError])"
  have t: "timers S = [1]" unfolding S_def by code_simp
  have h: "1 \<in> set (timers S)" by (simp add: t)
  note th = timer_cancelled_only_by_reschedule [of 1 JSON_parse quiet "[]" "[]" "[OnError]" S]
  from th h have c1: "1 \<notin> set (timers (reconnectCluster S))" unfolding S_def by blast
  from th have "timers (close S) = timers S" by blast
  with t have c2: "timers (close S) = [1]" by simp
  from th h have "fire 1 (close S) = connectToCluster
          ((close S)\<lparr>timers := removeAll 1 (timers S), clusterConnectionTimeout := None\<rparr>)"
    by blast
  moreover have "clusterSocket (connectToCluster
          ((close S)\<lparr>timers := removeAll 1 (timers S), clusterConnectionTimeout := None\<rparr>)) = Some 2"
    unfolding S_def by code_simp
  ultimately have c3: "clusterSocket (fire 1 (close S)) = Some 2" by simp
  from h c1 c2 c3 show ?thesis unfolding S_def by blast
qed

section \<open>C9: an exception of the callback stays inside the codec\<close>

text \<open>
  Claim C9. \<^verbatim>\<open>parseSocketData\<close> returns normally for every parser, every callback, every
  state and every chunk. When the callback throws on a decoded message, the loop body
  catches the exception, writes one line for that message to the console, empties the
  buffer as usual and returns normally, and the loop goes on with the next piece from that
  state.
\<close>

theorem callback_exception_is_contained:
  "fst (parseSocketData parse cb st stringData) = Normal
   \<and> (chunk \<noteq> [] \<and> \<not> (i = n - 1 \<and> incompleteData) \<and>
      parse (pendingSocketData st @ chunk) = Inr v \<and> truthy v \<and>
      cb v (st\<lparr>pendingSocketData := pendingSocketData st @ chunk\<rparr>) = (Throw err, st') \<longrightarrow>
        segment parse cb incompleteData n i chunk st =
          (Normal, (console_write (CallbackFailed err v) st')\<lparr>pendingSocketData := []\<rparr>) \<and>
        segments parse cb incompleteData n i (chunk # chunks) st =
          segments parse cb incompleteData n (Suc i) chunks
            ((console_write (CallbackFailed err v) st')\<lparr>pendingSocketData := []\<rparr>))"
proof -
  have "segment parse cb incompleteData n i chunk st =
          (Normal, (console_write (CallbackFailed err v) st')\<lparr>pendingSocketData := []\<rparr>)"
    if "chunk \<noteq> []" "\<not> (i = n - 1 \<and> incompleteData)"
      "parse (pendingSocketData st @ chunk) = Inr v" "truthy v"
      "cb v (st\<lparr>pendingSocketData := pendingSocketData st @ chunk\<rparr>) = (Throw err, st')"
    using segment_delivers [of chunk i n incompleteData parse st v cb] that
    by (simp add: try_callback_def)
  then show ?thesis
    using parseSocketData_Normal [of parse cb st stringData] by simp
qed

theorem callback_exception_is_contained_witness:
  \<open>''{"op":"a"}'' \<noteq> [] \<and> \<not> ((0::nat) = 3 - 1 \<and> False) \<and>
   JSON_parse (pendingSocketData init @ ''{"op":"a"}'') = Inr (JObj [(''op'', JStr ''a'')]) \<and>
   truthy (JObj [(''op'', JStr ''a'')]) \<and>
   (\<lambda>v st. (Throw (Thrown ''boom''), st)) (JObj [(''op'', JStr ''a'')])
      (init\<lparr>pendingSocketData := pendingSocketData init @ ''{"op":"a"}''\<rparr>) =
     (Throw (Thrown ''boom''), init\<lparr>pendingSocketData := ''{"op":"a"}''\<rparr>) \<and>
   segment JSON_parse (\<lambda>v st. (Throw (Thrown ''boom''), st)) False 3 0 ''{"op":"a"}'' init =
     (Normal, (console_write (CallbackFailed (Thrown ''boom'') (JObj [(''op'', JStr ''a'')]))
                 (init\<lparr>pendingSocketData := ''{"op":"a"}''\<rparr>))\<lparr>pendingSocketData := []\<rparr>) \<and>
   console (snd (parseSocketData JSON_parse (\<lambda>v st. (Throw (Thrown ''boom''), st)) init
                   ''{"op":"a"}#{"op":"b"}#'')) =
     [CallbackFailed (Thrown ''boom'') (JObj [(''op'', JStr ''a'')]),
      CallbackFailed (Thrown ''boom'') (JObj [(''op'', JStr ''b'')])]\<close>
proof -
  let ?a = \<open>''{"op":"a"}''\<close>
  let ?v = "JObj [(''op'', JStr ''a'')]"
  let ?cb = "\<lambda>(v::json) (st::service). (Throw (Thrown ''boom''), st)"
  have h1: "?a \<noteq> [] \<and> \<not> ((0::nat) = 3 - 1 \<and> False)" by simp
  have h2: "JSON_parse (pendingSocketData init @ ?a) = Inr ?v" by code_simp
  have h3: "truthy ?v" by simp
  have h4: "?cb ?v (init\<lparr>pendingSocketData := pendingSocketData init @ ?a\<rparr>) =
     (Throw (Thrown ''boom''), init\<lparr>pendingSocketData := ?a\<rparr>)"
    by (simp add: init_def)
  have c: "segment JSON_parse ?cb False 3 0 ?a init =
     (Normal, (console_write (CallbackFailed (Thrown ''boom'') ?v)
                 (init\<lparr>pendingSocketData := ?a\<rparr>))\<lparr>pendingSocketData := []\<rparr>)"
    using callback_exception_is_contained [of JSON_parse ?cb init "[]" ?a 0 3 False ?v
        "Thrown ''boom''" "init\<lparr>pendingSocketData := ?a\<rparr>" "[]"] h1 h2 h3 h4
    by blast
  have e: \<open>console (snd (parseSocketData JSON_parse ?cb init ''{"op":"a"}#{"op":"b"}#'')) =
     [CallbackFailed (Thrown ''boom'') (JObj [(''op'', JStr ''a'')]),
      CallbackFailed (Thrown ''boom'') (JObj [(''op'', JStr ''b'')])]\<close>
    by code_simp
  from h1 h2 h3 h4 c e show ?thesis by blast
qed

section \<open>C10: a welcome message is not forwarded\<close>

text \<open>
  Claim C10. The handler of a hub connection calls \<^verbatim>\<open>this.emit\<close> never for a message
  whose \<^verbatim>\<open>op\<close> is the string \<^verbatim>\<open>welcome\<close>, and exactly once, with the \<^verbatim>\<open>op\<close> and the
  \<^verbatim>\<open>data\<close> of the message, for every other message. The same holds for a frame that
  arrives on the connection and decodes to a message.
\<close>

theorem welcome_is_never_emitted:
  "emitted (snd (hub_callback subs socket data st)) =
     (if get_prop data ''op'' = Some (JStr ''welcome'') then emitted st
      else emitted st @ [(get_prop data ''op'', get_prop data ''data'')])
   \<and> (frame \<noteq> [] \<and> CHR ''#'' \<notin> set frame \<and>
      parse (pendingSocketData st @ frame) = Inr data \<and> truthy data \<longrightarrow>
        emitted (snd (hub_data parse subs socket st (frame @ ''#''))) =
          (if get_prop data ''op'' = Some (JStr ''welcome'') then emitted st
           else emitted st @ [(get_prop data ''op'', get_prop data ''data'')]))"
proof -
  have "emitted (snd (hub_data parse subs socket st (frame @ ''#''))) =
          (if get_prop data ''op'' = Some (JStr ''welcome'') then emitted st
           else emitted st @ [(get_prop data ''op'', get_prop data ''data'')])"
    if "frame \<noteq> []" "CHR ''#'' \<notin> set frame"
      "parse (pendingSocketData st @ frame) = Inr data" "truthy data"
    using parseSocketData_delivers [of frame parse st data "hub_callback subs socket"] that
      try_callback_emitted [of data "hub_callback subs socket"
        "st\<lparr>pendingSocketData := pendingSocketData st @ frame\<rparr>"]
      hub_callback_emitted [of subs socket data
        "st\<lparr>pendingSocketData := pendingSocketData st @ frame\<rparr>"]
    by (simp add: hub_data_def)
  then show ?thesis
    using hub_callback_emitted [of subs socket data st] by blast
qed

theorem welcome_is_never_emitted_witness:
  \<open>''{"op":"trades","data":[1]}'' \<noteq> [] \<and> CHR ''#'' \<notin> set ''{"op":"trades","data":[1]}'' \<and>
   JSON_parse (pendingSocketData init @ ''{"op":"trades","data":[1]}'') =
     Inr (JObj [(''op'', JStr ''trades''), (''data'', JArr [JNum 1 0])]) \<and>
   truthy (JObj [(''op'', JStr ''trades''), (''data'', JArr [JNum 1 0])]) \<and>
   emitted (snd (hub_data JSON_parse quiet 1 init
                   (''{"op":"trades","data":[1]}'' @ ''#''))) =
     [(Some (JStr ''trades''), Some (JArr [JNum 1 0]))] \<and>
   emitted (snd (hub_callback quiet 1
      (JObj [(''op'', JStr ''welcome''), (''data'', JObj [(''markets'', JArr []), (''indexes'', JArr [])])])
      init)) = []\<close>
proof -
  let ?f = \<open>''{"op":"trades","data":[1]}''\<close>
  let ?v = "JObj [(''op'', JStr ''trades''), (''data'', JArr [JNum 1 0])]"
  let ?w = "JObj [(''op'', JStr ''welcome''), (''data'', JObj [(''markets'', JArr []), (''indexes'', JArr [])])]"
  have h1: "?f \<noteq> [] \<and> CHR ''#'' \<notin> set ?f" by simp
  have h2: "JSON_parse (pendingSocketData init @ ?f) = Inr ?v" by code_simp
  have h3: "truthy ?v" by simp
  have e: "emitted init = []" by (simp add: init_def)
  have c1: "emitted (snd (hub_data JSON_parse quiet 1 init (?f @ ''#''))) =
     [(Some (JStr ''trades''), Some (JArr [JNum 1 0]))]"
    using welcome_is_never_emitted [of quiet 1 ?v init ?f JSON_parse] h1 h2 h3 e
    by simp
  have c2: "emitted (snd (hub_callback quiet 1 ?w init)) = []"
    using welcome_is_never_emitted [of quiet 1 ?w init "[]" JSON_parse] e
    by simp
  from h1 h2 h3 c1 c2 show ?thesis by blast
qed

end
